theory Spec2Isabelle
  imports Main
begin

section \<open>The analysis result (interface AnalysisResult)\<close>

text \<open>
  A JavaScript value read out of an array literal by index is either the element or
  \<open>undefined\<close>; the two level fields are filled that way (the \<open>as\<close> cast is erased at run
  time), so they hold a \<open>string option\<close>, with \<open>None\<close> for \<open>undefined\<close>. The numeric fields
  are filled with \<open>Math.floor(...) + c\<close>, an integer.
\<close>

record DiseaseDetection =
  detected :: bool
  diseases :: "string list"
  confidence :: int

record MarketPrediction =
  expectedPrice :: int
  demandLevel :: "string option"
  bestHarvestTime :: string

record EnvironmentalFactors =
  soilHealth :: int
  weatherImpact :: string
  pestRisk :: "string option"

record AnalysisResult =
  healthScore :: int
  diseaseDetection :: DiseaseDetection
  recommendations :: "string list"
  marketPrediction :: MarketPrediction
  environmentalFactors :: EnvironmentalFactors

section \<open>The source of randomness\<close>

text \<open>
  \<open>Math.random()\<close> is modelled by an infinite sequence of draws: a call returns the head
  and leaves the tail. A draw is a double. A non-negative double is written here as
  \<open>significand / 2 ^ scale\<close>. ECMAScript promises a draw \<open>r\<close> with \<open>0 \<le> r < 1\<close>: every double
  of that interval has a significand below \<open>2 ^ 53\<close> and a scale of at most 1074 (the
  subnormal doubles have scale 1074), and every such pair below 1 is a double;
  \<open>unit_double\<close> says so of a draw and \<open>unit_draws\<close> of every draw of a sequence.
\<close>

record double =
  significand :: nat
  scale :: nat

type_synonym rng = "nat \<Rightarrow> double"

definition Math_random :: "rng \<Rightarrow> double \<times> rng" where
  "Math_random g = (g 0, \<lambda>n. g (Suc n))"

definition unit_double :: "double \<Rightarrow> bool" where
  "unit_double x = (significand x < 2 ^ 53 \<and> scale x \<le> 1074 \<and> significand x < 2 ^ scale x)"

definition unit_draws :: "rng \<Rightarrow> bool" where
  "unit_draws g = (\<forall>n. unit_double (g n))"

text \<open>
  \<open>double_times x n\<close> is the product \<open>x * n\<close> of IEEE 754 arithmetic for a draw \<open>x\<close> and one
  of the integer literals of the source: the exact product \<open>significand x * n / 2 ^ scale x\<close>
  rounded to the nearest double, ties to even. A product whose numerator has at most 53
  bits is a double. One of \<open>53 + d\<close> bits loses its \<open>d\<close> lowest bits: the doubles around it
  are the multiples of \<open>2 ^ d / 2 ^ scale x\<close> (the product is at least \<open>2 ^ - 1021\<close>, hence
  normal, and far from overflow). The result keeps the scale of \<open>x\<close>, so that its numerator
  can have more than 53 bits, the lowest of them zero.
\<close>

fun bit_length :: "nat \<Rightarrow> nat" where
  "bit_length n = (if n = 0 then 0 else Suc (bit_length (n div 2)))"

declare bit_length.simps [simp del]

definition round_half_even :: "nat \<Rightarrow> nat \<Rightarrow> nat" where
  \<comment> \<open>\<open>p / 2 ^ d\<close> rounded to the nearest integer, a tie to the even one; \<open>d\<close> is positive.\<close>
  "round_half_even p d =
     (let q = p div 2 ^ d; r = p mod 2 ^ d; h = 2 ^ (d - 1)
      in if h < r \<or> (r = h \<and> odd q) then q + 1 else q)"

definition round53 :: "nat \<Rightarrow> nat" where
  \<comment> \<open>\<open>p\<close> rounded to 53 significant bits; the subtraction stops at 0.\<close>
  "round53 p =
     (let d = bit_length p - 53
      in if d = 0 then p else round_half_even p d * 2 ^ d)"

definition double_times :: "double \<Rightarrow> nat \<Rightarrow> double" where
  "double_times x n = \<lparr>significand = round53 (significand x * n), scale = scale x\<rparr>"

definition Math_floor :: "double \<Rightarrow> int" where
  "Math_floor x = int (significand x div 2 ^ scale x)"

definition double_greater :: "double \<Rightarrow> double \<Rightarrow> bool" where
  \<comment> \<open>\<open>x > y\<close>\<close>
  "double_greater x y = (significand y * 2 ^ scale x < significand x * 2 ^ scale y)"

definition point_seven :: double where
  \<comment> \<open>The double that the literal \<open>0.7\<close> denotes.\<close>
  "point_seven = \<lparr>significand = 3152519739159347, scale = 52\<rparr>"

definition js_index :: "'a list \<Rightarrow> int \<Rightarrow> 'a option" where
  \<comment> \<open>\<open>xs[i]\<close> for an integer \<open>i\<close>: \<open>undefined\<close> outside the array.\<close>
  "js_index xs i = (if 0 \<le> i \<and> i < int (length xs) then Some (xs ! nat i) else None)"

section \<open>The mock result of simulateAIAnalysis\<close>

text \<open>
  The object literal is evaluated in source order, so its eight \<open>Math.random()\<close> calls
  consume the draws 0 to 7 in the order healthScore, detected, diseases, confidence,
  expectedPrice, demandLevel, soilHealth, pestRisk.
\<close>

definition mockResult :: "rng \<Rightarrow> AnalysisResult" where
  "mockResult g0 =
     (let (r0, g1) = Math_random g0;
          (r1, g2) = Math_random g1;
          (r2, g3) = Math_random g2;
          (r3, g4) = Math_random g3;
          (r4, g5) = Math_random g4;
          (r5, g6) = Math_random g5;
          (r6, g7) = Math_random g6;
          (r7, g8) = Math_random g7
      in \<lparr> healthScore = Math_floor (double_times r0 30) + 70,
           diseaseDetection =
             \<lparr> detected = double_greater r1 point_seven,
               diseases =
                 (if double_greater r2 point_seven then [''Leaf Blight'', ''Powdery Mildew'']
                  else []),
               confidence = Math_floor (double_times r3 20) + 80 \<rparr>,
           recommendations =
             [''Increase watering frequency by 20%'',
              ''Apply organic fertilizer rich in nitrogen'',
              ''Monitor for pest activity in the next 7 days'',
              ''Consider companion planting with marigolds'',
              ''Harvest within 2-3 weeks for optimal quality''],
           marketPrediction =
             \<lparr> expectedPrice = Math_floor (double_times r4 50) + 25,
               demandLevel = js_index [''Low'', ''Medium'', ''High''] (Math_floor (double_times r5 3)),
               bestHarvestTime = ''Next 2-3 weeks'' \<rparr>,
           environmentalFactors =
             \<lparr> soilHealth = Math_floor (double_times r6 30) + 70,
               weatherImpact = ''Favorable conditions expected'',
               pestRisk = js_index [''Low'', ''Medium'', ''High''] (Math_floor (double_times r7 3)) \<rparr> \<rparr>)"

section \<open>JSON.stringify(value, null, 2)\<close>

text \<open>
  The export handler calls the built-in \<open>JSON.stringify(analysisResult, null, 2)\<close>. The
  values it meets are objects, arrays, strings, integers and booleans; \<open>json\<close> is that
  fragment of the JavaScript values, an object being the list of its own properties in
  creation order. \<open>serialize\<close> follows ECMAScript's SerializeJSONProperty with the gap of
  two spaces: \<open>k\<close> is the nesting depth, so the current indent is \<open>2 * k\<close> spaces.
  \<open>Number_toString\<close> is the decimal notation that JavaScript gives an integer of absolute
  value below \<open>10^21\<close>. A \<open>char\<close> is a code unit below 256.
\<close>

datatype json = JNull | JBool bool | JNumber int | JString string
  | JArray "json list" | JObject "(string \<times> json) list"

definition digit_char :: "nat \<Rightarrow> char" where
  "digit_char d = char_of (48 + d)"

fun digits :: "nat \<Rightarrow> string" where
  "digits n = (if n < 10 then [digit_char n] else digits (n div 10) @ [digit_char (n mod 10)])"

declare digits.simps [simp del]

definition Number_toString :: "int \<Rightarrow> string" where
  "Number_toString i = (if i < 0 then CHR ''-'' # digits (nat (- i)) else digits (nat i))"

definition hex_char :: "nat \<Rightarrow> char" where
  "hex_char d = (if d < 10 then char_of (48 + d) else char_of (87 + d))"

definition quote_char :: "char \<Rightarrow> string" where
  \<comment> \<open>One code unit of QuoteJSONString: the short escapes, \<open>\u00xx\<close> for the other control
      characters, the character itself otherwise.\<close>
  "quote_char c =
     (if c = CHR 0x08 then [CHR 0x5C, CHR ''b'']
      else if c = CHR 0x09 then [CHR 0x5C, CHR ''t'']
      else if c = CHR 0x0A then [CHR 0x5C, CHR ''n'']
      else if c = CHR 0x0C then [CHR 0x5C, CHR ''f'']
      else if c = CHR 0x0D then [CHR 0x5C, CHR ''r'']
      else if c = CHR 0x22 then [CHR 0x5C, CHR 0x22]
      else if c = CHR 0x5C then [CHR 0x5C, CHR 0x5C]
      else if (of_char c :: nat) < 32
        then [CHR 0x5C, CHR ''u'', CHR ''0'', CHR ''0'',
              hex_char (of_char c div 16), hex_char (of_char c mod 16)]
      else [c])"

definition QuoteJSONString :: "string \<Rightarrow> string" where
  "QuoteJSONString s = CHR 0x22 # concat (map quote_char s) @ [CHR 0x22]"

definition indent :: "nat \<Rightarrow> string" where
  "indent k = replicate (2 * k) CHR '' ''"

fun serialize :: "nat \<Rightarrow> json \<Rightarrow> string"
  and serialize_elements :: "nat \<Rightarrow> json list \<Rightarrow> string"
  and serialize_members :: "nat \<Rightarrow> (string \<times> json) list \<Rightarrow> string" where
  "serialize k JNull = ''null''"
| "serialize k (JBool b) = (if b then ''true'' else ''false'')"
| "serialize k (JNumber i) = Number_toString i"
| "serialize k (JString s) = QuoteJSONString s"
| "serialize k (JArray []) = ''[]''"
| "serialize k (JArray (v # vs)) =
     CHR ''['' # CHR 0x0A # indent (Suc k) @ serialize_elements (Suc k) (v # vs)
       @ CHR 0x0A # indent k @ '']''"
| "serialize k (JObject []) = ''{}''"
| "serialize k (JObject (m # ms)) =
     CHR ''{'' # CHR 0x0A # indent (Suc k) @ serialize_members (Suc k) (m # ms)
       @ CHR 0x0A # indent k @ ''}''"
| "serialize_elements k [] = []"
| "serialize_elements k [v] = serialize k v"
| "serialize_elements k (v # w # vs) =
     serialize k v @ CHR '','' # CHR 0x0A # indent k @ serialize_elements k (w # vs)"
| "serialize_members k [] = []"
| "serialize_members k [(p, v)] = QuoteJSONString p @ '': '' @ serialize k v"
| "serialize_members k ((p, v) # m # ms) =
     QuoteJSONString p @ '': '' @ serialize k v
       @ CHR '','' # CHR 0x0A # indent k @ serialize_members k (m # ms)"

definition JSON_stringify :: "json \<Rightarrow> string" where
  "JSON_stringify v = serialize 0 v"

text \<open>
  An AnalysisResult as a JavaScript value: the properties in the order of the object
  literal. A property whose value is \<open>undefined\<close> is left out by \<open>JSON.stringify\<close>.
\<close>

definition optional_member :: "string \<Rightarrow> string option \<Rightarrow> (string \<times> json) list" where
  "optional_member p x = (case x of None \<Rightarrow> [] | Some s \<Rightarrow> [(p, JString s)])"

definition AnalysisResult_json :: "AnalysisResult \<Rightarrow> json" where
  "AnalysisResult_json r =
     JObject
       [(''healthScore'', JNumber (healthScore r)),
        (''diseaseDetection'',
           JObject
             [(''detected'', JBool (detected (diseaseDetection r))),
              (''diseases'', JArray (map JString (diseases (diseaseDetection r)))),
              (''confidence'', JNumber (confidence (diseaseDetection r)))]),
        (''recommendations'', JArray (map JString (recommendations r))),
        (''marketPrediction'',
           JObject
             ((''expectedPrice'', JNumber (expectedPrice (marketPrediction r)))
              # optional_member ''demandLevel'' (demandLevel (marketPrediction r))
              @ [(''bestHarvestTime'', JString (bestHarvestTime (marketPrediction r)))])),
        (''environmentalFactors'',
           JObject
             ((''soilHealth'', JNumber (soilHealth (environmentalFactors r)))
              # (''weatherImpact'', JString (weatherImpact (environmentalFactors r)))
              # optional_member ''pestRisk'' (pestRisk (environmentalFactors r))))]"

section \<open>JSON.parse\<close>

text \<open>
  The reader of the exported document, after the JSON grammar (ECMA-404) that
  \<open>JSON.parse\<close> implements: a lexer from characters to tokens and a recursive-descent
  parser from tokens to a \<open>json\<close> value. Two limits of the fragment: a number with a
  fraction or an exponent and a \<open>\u\<close> escape of a code unit above 255 are refused
  (\<open>None\<close>), since \<open>json\<close> has integers and 8-bit characters only; and an object is
  returned as its members in textual order, which is the object \<open>JSON.parse\<close> builds when
  the keys are distinct and none of them is an array index.
\<close>

datatype token = TLBrace | TRBrace | TLBracket | TRBracket | TColon | TComma
  | TString string | TNumber int | TTrue | TFalse | TNull

definition is_ws :: "char \<Rightarrow> bool" where
  "is_ws c = (c = CHR '' '' \<or> c = CHR 0x09 \<or> c = CHR 0x0A \<or> c = CHR 0x0D)"

definition is_digit :: "char \<Rightarrow> bool" where
  "is_digit c = (48 \<le> (of_char c :: nat) \<and> (of_char c :: nat) \<le> 57)"

definition digit_value :: "char \<Rightarrow> nat" where
  "digit_value c = of_char c - 48"

definition digits_value :: "string \<Rightarrow> nat" where
  "digits_value ds = foldl (\<lambda>a c. 10 * a + digit_value c) 0 ds"

definition hex_value :: "char \<Rightarrow> nat option" where
  "hex_value c =
     (let n = (of_char c :: nat)
      in if 48 \<le> n \<and> n \<le> 57 then Some (n - 48)
         else if 97 \<le> n \<and> n \<le> 102 then Some (n - 87)
         else if 65 \<le> n \<and> n \<le> 70 then Some (n - 55)
         else None)"

definition hex4 :: "char \<Rightarrow> char \<Rightarrow> char \<Rightarrow> char \<Rightarrow> nat option" where
  "hex4 a b c d =
     (case (hex_value a, hex_value b, hex_value c, hex_value d) of
        (Some x, Some y, Some z, Some w) \<Rightarrow> Some (((x * 16 + y) * 16 + z) * 16 + w)
      | _ \<Rightarrow> None)"

definition put_char :: "char \<Rightarrow> (string \<times> string) option \<Rightarrow> (string \<times> string) option" where
  "put_char c res = (case res of None \<Rightarrow> None | Some (s, r) \<Rightarrow> Some (c # s, r))"

definition unescape :: "string \<Rightarrow> (char \<times> string) option" where
  \<comment> \<open>The characters after a backslash: the character escaped and what follows.\<close>
  "unescape cs =
     (case cs of
        [] \<Rightarrow> None
      | e # cs1 \<Rightarrow>
          if e = CHR 0x22 then Some (CHR 0x22, cs1)
          else if e = CHR 0x5C then Some (CHR 0x5C, cs1)
          else if e = CHR ''/'' then Some (CHR ''/'', cs1)
          else if e = CHR ''b'' then Some (CHR 0x08, cs1)
          else if e = CHR ''f'' then Some (CHR 0x0C, cs1)
          else if e = CHR ''n'' then Some (CHR 0x0A, cs1)
          else if e = CHR ''r'' then Some (CHR 0x0D, cs1)
          else if e = CHR ''t'' then Some (CHR 0x09, cs1)
          else if e = CHR ''u'' then
            (case cs1 of
               a # b # x # y # cs2 \<Rightarrow>
                 (case hex4 a b x y of
                    None \<Rightarrow> None
                  | Some n \<Rightarrow> if n < 256 then Some (char_of n, cs2) else None)
             | _ \<Rightarrow> None)
          else None)"

lemma unescape_shorter: "unescape cs = Some (d, r) \<Longrightarrow> length r < length cs"
  unfolding unescape_def
  by (cases cs) (auto split: if_splits list.splits option.splits)

function lex_string :: "string \<Rightarrow> (string \<times> string) option" where
  \<comment> \<open>The characters after an opening quote: the string and what follows its closing quote.\<close>
  "lex_string [] = None"
| "lex_string (c # cs) =
     (if c = CHR 0x22 then Some ([], cs)
      else if c = CHR 0x5C then
        (case unescape cs of
           None \<Rightarrow> None
         | Some (d, r) \<Rightarrow> put_char d (lex_string r))
      else if (of_char c :: nat) < 32 then None
      else put_char c (lex_string cs))"
  by pat_completeness auto
termination
proof (relation "measure length")
  show "wf (measure length)" by simp
qed (auto dest: unescape_shorter)

definition lex_number :: "string \<Rightarrow> (int \<times> string) option" where
  "lex_number cs =
     (let neg = (cs \<noteq> [] \<and> hd cs = CHR ''-'');
          cs1 = (if neg then tl cs else cs);
          ds = takeWhile is_digit cs1;
          r = dropWhile is_digit cs1
      in if ds = [] then None
         else if hd ds = CHR ''0'' \<and> tl ds \<noteq> [] then None
         else if r \<noteq> [] \<and> (hd r = CHR ''.'' \<or> hd r = CHR ''e'' \<or> hd r = CHR ''E'') then None
         else Some (if neg then - int (digits_value ds) else int (digits_value ds), r))"

definition put_token :: "token \<Rightarrow> token list option \<Rightarrow> token list option" where
  "put_token t res = (case res of None \<Rightarrow> None | Some ts \<Rightarrow> Some (t # ts))"

definition punctuation :: "char \<Rightarrow> token option" where
  "punctuation c =
     (if c = CHR ''{'' then Some TLBrace
      else if c = CHR ''}'' then Some TRBrace
      else if c = CHR ''['' then Some TLBracket
      else if c = CHR '']'' then Some TRBracket
      else if c = CHR '':'' then Some TColon
      else if c = CHR '','' then Some TComma
      else None)"

definition literal_token :: "string \<Rightarrow> (token \<times> string) option" where
  "literal_token cs =
     (if take 4 cs = ''true'' then Some (TTrue, drop 4 cs)
      else if take 5 cs = ''false'' then Some (TFalse, drop 5 cs)
      else if take 4 cs = ''null'' then Some (TNull, drop 4 cs)
      else None)"

definition next_token :: "string \<Rightarrow> (token \<times> string) option" where
  \<comment> \<open>The token at the head of a text that does not start with white space.\<close>
  "next_token cs =
     (case cs of
        [] \<Rightarrow> None
      | c # cs1 \<Rightarrow>
          (case punctuation c of
             Some t \<Rightarrow> Some (t, cs1)
           | None \<Rightarrow>
               if c = CHR 0x22 then
                 (case lex_string cs1 of None \<Rightarrow> None | Some (s, r) \<Rightarrow> Some (TString s, r))
               else if c = CHR ''-'' \<or> is_digit c then
                 (case lex_number cs of None \<Rightarrow> None | Some (i, r) \<Rightarrow> Some (TNumber i, r))
               else literal_token cs))"

lemma lex_string_shorter: "lex_string cs = Some (s, r) \<Longrightarrow> length r < length cs"
proof (induction cs arbitrary: s r rule: lex_string.induct)
  case 1
  then show ?case by simp
next
  case (2 c cs)
  show ?case
  proof (cases "c = CHR 0x22")
    case True
    with "2.prems" show ?thesis by simp
  next
    case q: False
    show ?thesis
    proof (cases "c = CHR 0x5C")
      case True
      with q "2.prems" obtain d r1 s1 where u: "unescape cs = Some (d, r1)"
        and l: "lex_string r1 = Some (s1, r)"
        by (auto simp: put_char_def split: option.splits)
      from "2.IH"(1) [OF q True u refl l] have "length r < length r1" .
      moreover from unescape_shorter [OF u] have "length r1 < length cs" .
      ultimately show ?thesis by simp
    next
      case b: False
      with q "2.prems" obtain s1 where c: "\<not> (of_char c :: nat) < 32"
        and l: "lex_string cs = Some (s1, r)"
        by (auto simp: put_char_def split: option.splits if_splits)
      from "2.IH"(2) [OF q b c l] show ?thesis by simp
    qed
  qed
qed

lemma lex_number_shorter: "lex_number cs = Some (i, r) \<Longrightarrow> length r < length cs"
proof -
  assume a: "lex_number cs = Some (i, r)"
  define cs1 where "cs1 = (if cs \<noteq> [] \<and> hd cs = CHR ''-'' then tl cs else cs)"
  from a have r: "r = dropWhile is_digit cs1" and d: "takeWhile is_digit cs1 \<noteq> []"
    by (auto simp: lex_number_def Let_def cs1_def split: if_splits)
  have "length (takeWhile is_digit cs1) + length (dropWhile is_digit cs1) = length cs1"
    by (metis length_append takeWhile_dropWhile_id)
  with d r have "length r < length cs1" by (cases "takeWhile is_digit cs1") auto
  moreover have "length cs1 \<le> length cs" by (simp add: cs1_def)
  ultimately show ?thesis by simp
qed

lemma literal_token_shorter:
  assumes "literal_token cs = Some (t, r)"
  shows "length r < length cs"
proof -
  from assms have "(r = drop 4 cs \<and> length (take 4 cs) = 4) \<or> (r = drop 5 cs \<and> length (take 5 cs) = 5)"
    unfolding literal_token_def by (auto split: if_splits)
  then show ?thesis by auto
qed

lemma next_token_shorter:
  assumes a: "next_token cs = Some (t, r)"
  shows "length r < length cs"
proof (cases cs)
  case Nil
  with a show ?thesis by (simp add: next_token_def)
next
  case (Cons c cs1)
  show ?thesis
  proof (cases "punctuation c")
    case (Some p)
    with a Cons show ?thesis by (simp add: next_token_def)
  next
    case None
    show ?thesis
    proof (cases "c = CHR 0x22")
      case True
      with a Cons None obtain s where "lex_string cs1 = Some (s, r)"
        by (auto simp: next_token_def split: option.splits)
      from lex_string_shorter [OF this] Cons show ?thesis by simp
    next
      case q: False
      show ?thesis
      proof (cases "c = CHR ''-'' \<or> is_digit c")
        case True
        with a Cons None q obtain i where "lex_number cs = Some (i, r)"
          by (auto simp: next_token_def split: option.splits)
        from lex_number_shorter [OF this] show ?thesis .
      next
        case False
        with a Cons None q have "literal_token cs = Some (t, r)"
          by (simp add: next_token_def)
        from literal_token_shorter [OF this] show ?thesis .
      qed
    qed
  qed
qed

function tokenize :: "string \<Rightarrow> token list option" where
  "tokenize cs =
     (case dropWhile is_ws cs of
        [] \<Rightarrow> Some []
      | c # cs1 \<Rightarrow>
          (case next_token (c # cs1) of
             None \<Rightarrow> None
           | Some (t, r) \<Rightarrow> put_token t (tokenize r)))"
  by pat_completeness auto
termination
proof (relation "measure length")
  show "wf (measure length)" by simp
next
  fix cs :: string and c cs1 x2 t r
  assume d: "dropWhile is_ws cs = c # cs1" and n: "next_token (c # cs1) = Some x2" and x: "(t, r) = x2"
  from n x have "length r < length (c # cs1)" by (auto dest: next_token_shorter)
  moreover have "length (dropWhile is_ws cs) \<le> length cs" by (rule length_dropWhile_le)
  ultimately show "(r, cs) \<in> measure length" using d by simp
qed

declare tokenize.simps [simp del]

text \<open>
  The parser takes fuel: every call spends one unit, and \<open>JSON_parse\<close> gives it the
  number of tokens, which is enough for the tokens of any value (lemma \<open>parse_tokens\<close>
  below). \<open>parse_elements\<close> and \<open>parse_members\<close> read what follows an opening bracket or
  brace when the array or object is not empty, up to and including the closing one.
\<close>

fun parse_value :: "nat \<Rightarrow> token list \<Rightarrow> (json \<times> token list) option"
  and parse_elements :: "nat \<Rightarrow> token list \<Rightarrow> (json list \<times> token list) option"
  and parse_members :: "nat \<Rightarrow> token list \<Rightarrow> ((string \<times> json) list \<times> token list) option" where
  "parse_value 0 ts = None"
| "parse_value (Suc n) [] = None"
| "parse_value (Suc n) (TNull # ts) = Some (JNull, ts)"
| "parse_value (Suc n) (TTrue # ts) = Some (JBool True, ts)"
| "parse_value (Suc n) (TFalse # ts) = Some (JBool False, ts)"
| "parse_value (Suc n) (TNumber i # ts) = Some (JNumber i, ts)"
| "parse_value (Suc n) (TString s # ts) = Some (JString s, ts)"
| "parse_value (Suc n) (TLBracket # ts) =
     (if ts \<noteq> [] \<and> hd ts = TRBracket then Some (JArray [], tl ts)
      else (case parse_elements n ts of None \<Rightarrow> None | Some (vs, r) \<Rightarrow> Some (JArray vs, r)))"
| "parse_value (Suc n) (TLBrace # ts) =
     (if ts \<noteq> [] \<and> hd ts = TRBrace then Some (JObject [], tl ts)
      else (case parse_members n ts of None \<Rightarrow> None | Some (ms, r) \<Rightarrow> Some (JObject ms, r)))"
| "parse_value (Suc n) (TRBrace # ts) = None"
| "parse_value (Suc n) (TRBracket # ts) = None"
| "parse_value (Suc n) (TColon # ts) = None"
| "parse_value (Suc n) (TComma # ts) = None"
| "parse_elements 0 ts = None"
| "parse_elements (Suc n) ts =
     (case parse_value n ts of
        None \<Rightarrow> None
      | Some (v, r) \<Rightarrow>
          (case r of
             TRBracket # r1 \<Rightarrow> Some ([v], r1)
           | TComma # r1 \<Rightarrow>
               (case parse_elements n r1 of None \<Rightarrow> None | Some (vs, r2) \<Rightarrow> Some (v # vs, r2))
           | _ \<Rightarrow> None))"
| "parse_members 0 ts = None"
| "parse_members (Suc n) ts =
     (case ts of
        TString p # TColon # r \<Rightarrow>
          (case parse_value n r of
             None \<Rightarrow> None
           | Some (v, r1) \<Rightarrow>
               (case r1 of
                  TRBrace # r2 \<Rightarrow> Some ([(p, v)], r2)
                | TComma # r2 \<Rightarrow>
                    (case parse_members n r2 of
                       None \<Rightarrow> None
                     | Some (ms, r3) \<Rightarrow> Some ((p, v) # ms, r3))
                | _ \<Rightarrow> None))
      | _ \<Rightarrow> None)"

definition JSON_parse :: "string \<Rightarrow> json option" where
  "JSON_parse text =
     (case tokenize text of
        None \<Rightarrow> None
      | Some ts \<Rightarrow>
          (case parse_value (length ts) ts of
             None \<Rightarrow> None
           | Some (v, r) \<Rightarrow> if r = [] then Some v else None))"

text \<open>The tokens of a value, whatever the white space between them.\<close>

fun tokens :: "json \<Rightarrow> token list"
  and tokens_elements :: "json list \<Rightarrow> token list"
  and tokens_members :: "(string \<times> json) list \<Rightarrow> token list" where
  "tokens JNull = [TNull]"
| "tokens (JBool b) = [if b then TTrue else TFalse]"
| "tokens (JNumber i) = [TNumber i]"
| "tokens (JString s) = [TString s]"
| "tokens (JArray vs) = TLBracket # tokens_elements vs @ [TRBracket]"
| "tokens (JObject ms) = TLBrace # tokens_members ms @ [TRBrace]"
| "tokens_elements [] = []"
| "tokens_elements [v] = tokens v"
| "tokens_elements (v # w # vs) = tokens v @ TComma # tokens_elements (w # vs)"
| "tokens_members [] = []"
| "tokens_members [(p, v)] = TString p # TColon # tokens v"
| "tokens_members ((p, v) # m # ms) = TString p # TColon # tokens v @ TComma # tokens_members (m # ms)"

definition put_tokens :: "token list \<Rightarrow> token list option \<Rightarrow> token list option" where
  "put_tokens ts res = (case res of None \<Rightarrow> None | Some r \<Rightarrow> Some (ts @ r))"

definition number_end :: "string \<Rightarrow> bool" where
  \<comment> \<open>A text that cannot continue a number written before it.\<close>
  "number_end cs =
     (case cs of
        [] \<Rightarrow> True
      | c # _ \<Rightarrow> \<not> is_digit c \<and> c \<noteq> CHR ''.'' \<and> c \<noteq> CHR ''e'' \<and> c \<noteq> CHR ''E'')"

text \<open>
  Reading the parsed value as an AnalysisResult, property by property. A missing property
  reads as \<open>undefined\<close>, which only the two level fields can hold.
\<close>

definition property :: "json \<Rightarrow> string \<Rightarrow> json option" where
  "property v p = (case v of JObject ms \<Rightarrow> map_of ms p | _ \<Rightarrow> None)"

definition as_int :: "json option \<Rightarrow> int option" where
  "as_int x = (case x of Some (JNumber i) \<Rightarrow> Some i | _ \<Rightarrow> None)"

definition as_bool :: "json option \<Rightarrow> bool option" where
  "as_bool x = (case x of Some (JBool b) \<Rightarrow> Some b | _ \<Rightarrow> None)"

definition as_string :: "json option \<Rightarrow> string option" where
  "as_string x = (case x of Some (JString s) \<Rightarrow> Some s | _ \<Rightarrow> None)"

fun strings_of :: "json list \<Rightarrow> string list option" where
  "strings_of [] = Some []"
| "strings_of (JString s # vs) = (case strings_of vs of None \<Rightarrow> None | Some ss \<Rightarrow> Some (s # ss))"
| "strings_of (_ # vs) = None"

definition as_strings :: "json option \<Rightarrow> string list option" where
  "as_strings x = (case x of Some (JArray vs) \<Rightarrow> strings_of vs | _ \<Rightarrow> None)"

definition as_level :: "json option \<Rightarrow> string option option" where
  "as_level x = (case x of None \<Rightarrow> Some None | Some (JString s) \<Rightarrow> Some (Some s) | _ \<Rightarrow> None)"

definition DiseaseDetection_of_json :: "json option \<Rightarrow> DiseaseDetection option" where
  "DiseaseDetection_of_json x =
     (case x of
        None \<Rightarrow> None
      | Some v \<Rightarrow>
          (case (as_bool (property v ''detected''), as_strings (property v ''diseases''),
                 as_int (property v ''confidence'')) of
             (Some b, Some ds, Some c) \<Rightarrow> Some \<lparr>detected = b, diseases = ds, confidence = c\<rparr>
           | _ \<Rightarrow> None))"

definition MarketPrediction_of_json :: "json option \<Rightarrow> MarketPrediction option" where
  "MarketPrediction_of_json x =
     (case x of
        None \<Rightarrow> None
      | Some v \<Rightarrow>
          (case (as_int (property v ''expectedPrice''), as_level (property v ''demandLevel''),
                 as_string (property v ''bestHarvestTime'')) of
             (Some e, Some d, Some b) \<Rightarrow>
               Some \<lparr>expectedPrice = e, demandLevel = d, bestHarvestTime = b\<rparr>
           | _ \<Rightarrow> None))"

definition EnvironmentalFactors_of_json :: "json option \<Rightarrow> EnvironmentalFactors option" where
  "EnvironmentalFactors_of_json x =
     (case x of
        None \<Rightarrow> None
      | Some v \<Rightarrow>
          (case (as_int (property v ''soilHealth''), as_string (property v ''weatherImpact''),
                 as_level (property v ''pestRisk'')) of
             (Some h, Some w, Some p) \<Rightarrow> Some \<lparr>soilHealth = h, weatherImpact = w, pestRisk = p\<rparr>
           | _ \<Rightarrow> None))"

definition AnalysisResult_of_json :: "json \<Rightarrow> AnalysisResult option" where
  "AnalysisResult_of_json v =
     (case (as_int (property v ''healthScore''),
            DiseaseDetection_of_json (property v ''diseaseDetection''),
            as_strings (property v ''recommendations''),
            MarketPrediction_of_json (property v ''marketPrediction''),
            EnvironmentalFactors_of_json (property v ''environmentalFactors'')) of
        (Some h, Some d, Some rs, Some m, Some e) \<Rightarrow>
          Some \<lparr>healthScore = h, diseaseDetection = d, recommendations = rs,
                marketPrediction = m, environmentalFactors = e\<rparr>
      | _ \<Rightarrow> None)"

section \<open>The component state and its handlers\<close>

text \<open>A \<open>File\<close> is known by its name; the component never looks inside one.\<close>

type_synonym File = string

datatype AnalysisType = disease | health | market

record Controller =
  selectedImage :: "File option"
  imagePreview :: string
  analyzing :: bool
  analysisResult :: "AnalysisResult option"
  analysisType :: AnalysisType

definition initial :: Controller where
  \<comment> \<open>The five \<open>useState\<close> initial values.\<close>
  "initial = \<lparr> selectedImage = None, imagePreview = '''', analyzing = False,
               analysisResult = None, analysisType = disease \<rparr>"

text \<open>
  Modelled from the spec: the type \<open>Crop\<close> is imported from \<open>../types\<close>, which is not among
  the sources. The record has the fields the component reads; \<open>image_url\<close> is optional.
\<close>

record Crop =
  name :: string
  crop_type :: string
  soil_type :: string
  harvest_date :: string
  expiry_date :: string
  image_url :: "string option"

definition crop_image_url :: "Crop option \<Rightarrow> bool" where
  \<comment> \<open>The truthiness of \<open>crop?.image_url\<close>: a crop with a non-empty image URL.\<close>
  "crop_image_url crop =
     (case crop of None \<Rightarrow> False
      | Some c \<Rightarrow> (case image_url c of None \<Rightarrow> False | Some u \<Rightarrow> u \<noteq> ''''))"

definition handleImageUpload :: "File option \<Rightarrow> Controller \<Rightarrow> Controller" where
  \<comment> \<open>The synchronous part: \<open>if (file) { setSelectedImage(file); ... readAsDataURL(file) }\<close>.\<close>
  "handleImageUpload file s =
     (case file of None \<Rightarrow> s | Some f \<Rightarrow> s\<lparr>selectedImage := Some f\<rparr>)"

definition reader_onload :: "string \<Rightarrow> Controller \<Rightarrow> Controller" where
  \<comment> \<open>\<open>reader.onload\<close>, run when the read succeeds. The reader has no \<open>onerror\<close>.\<close>
  "reader_onload url s = s\<lparr>imagePreview := url\<rparr>"

definition removeImage :: "Controller \<Rightarrow> Controller" where
  \<comment> \<open>The Remove Image button: \<open>setSelectedImage(null); setImagePreview('')\<close>.\<close>
  "removeImage s = s\<lparr>selectedImage := None, imagePreview := ''''\<rparr>"

definition setAnalysisType :: "AnalysisType \<Rightarrow> Controller \<Rightarrow> Controller" where
  "setAnalysisType t s = s\<lparr>analysisType := t\<rparr>"

definition simulateAIAnalysis_begin :: "Controller \<Rightarrow> Controller" where
  \<comment> \<open>\<open>simulateAIAnalysis\<close> up to its \<open>await\<close>.\<close>
  "simulateAIAnalysis_begin s = s\<lparr>analyzing := True\<rparr>"

definition simulateAIAnalysis_resume :: "rng \<Rightarrow> Controller \<Rightarrow> Controller" where
  \<comment> \<open>\<open>simulateAIAnalysis\<close> after its \<open>await\<close>, when the 3000 ms timer has fired.\<close>
  "simulateAIAnalysis_resume g s = s\<lparr>analysisResult := Some (mockResult g), analyzing := False\<rparr>"

definition analyze_disabled :: "Crop option \<Rightarrow> Controller \<Rightarrow> bool" where
  \<comment> \<open>\<open>disabled={analyzing || (!selectedImage && !crop?.image_url)}\<close>\<close>
  "analyze_disabled crop s =
     (analyzing s \<or> (selectedImage s = None \<and> \<not> crop_image_url crop))"

definition export_filename :: "Crop option \<Rightarrow> string \<Rightarrow> string" where
  \<comment> \<open>The template \<open>ai-analysis-${crop?.name || 'crop'}-${today}.json\<close>, \<open>today\<close> being the
      date part of \<open>new Date().toISOString()\<close>.\<close>
  "export_filename crop today =
     ''ai-analysis-''
       @ (case crop of None \<Rightarrow> ''crop'' | Some c \<Rightarrow> (if name c = '''' then ''crop'' else name c))
       @ ''-'' @ today @ ''.json''"

text \<open>
  What a handler does beyond setting state: the call of the \<open>onClose\<close> property, and the
  download of a named document.
\<close>

datatype effect = OnClose | Download string string

text \<open>
  The error taxonomy of the specification. The component has no \<open>throw\<close>, no rejected
  promise and no \<open>onerror\<close> handler, so no branch of \<open>dispatch\<close> below returns \<open>Inl\<close>.
\<close>

datatype error = PreconditionError | DecodeError

text \<open>
  The events of the rendered component. The markup decides which can reach a handler: the
  file input exists while \<open>imagePreview\<close> is empty, the Remove Image button while it is not,
  the Start button is disabled by \<open>analyze_disabled\<close>, and the Export button exists while a
  result is stored. An event on an absent or disabled control changes nothing.
  \<open>ReaderLoad url\<close> is the \<open>onload\<close> of a read that succeeded; a read that fails delivers
  nothing. \<open>DelayElapsed g\<close> is the timer of a started analysis firing, with the draws \<open>g\<close>
  that \<open>Math.random()\<close> then returns. \<open>dispatch\<close> is what an event does to the state of the
  mounted component; which timers are running, and whether the component is still
  mounted, is kept by \<open>deliver\<close> below.
\<close>

datatype event =
  Upload "File option"
  | ReaderLoad string
  | RemoveImageClick
  | SelectType AnalysisType
  | StartAnalysisClick
  | DelayElapsed rng
  | ExportClick
  | CloseClick

fun dispatch :: "Crop option \<Rightarrow> string \<Rightarrow> event \<Rightarrow> Controller \<Rightarrow> error + Controller \<times> effect list" where
  "dispatch crop today (Upload file) s =
     (if imagePreview s = '''' then Inr (handleImageUpload file s, []) else Inr (s, []))"
| "dispatch crop today (ReaderLoad url) s = Inr (reader_onload url s, [])"
| "dispatch crop today RemoveImageClick s =
     (if imagePreview s = '''' then Inr (s, []) else Inr (removeImage s, []))"
| "dispatch crop today (SelectType t) s = Inr (setAnalysisType t s, [])"
| "dispatch crop today StartAnalysisClick s =
     (if analyze_disabled crop s then Inr (s, []) else Inr (simulateAIAnalysis_begin s, []))"
| "dispatch crop today (DelayElapsed g) s = Inr (simulateAIAnalysis_resume g s, [])"
| "dispatch crop today ExportClick s =
     (case analysisResult s of
        None \<Rightarrow> Inr (s, [])
      | Some r \<Rightarrow>
          Inr (s, [Download (export_filename crop today) (JSON_stringify (AnalysisResult_json r))]))"
| "dispatch crop today CloseClick s = Inr (s, [OnClose])"

text \<open>
  Modelled from the spec: the host that renders the component and passes it \<open>onClose\<close> is
  not among the sources. The specification has \<open>close()\<close> signal the caller to dismiss the
  workflow, terminal for the controller instance, whose state lives and dies with the
  mounted component. So the host modelled here unmounts the component when \<open>onClose\<close> is
  called. A mounted component has its state and the timers of the analyses it started;
  of a dismissed one only the timers remain. They still fire, and the continuation of
  \<open>simulateAIAnalysis\<close> still calls its setters, but a setter of an unmounted component
  stores nothing, and no control is left to receive an event.
\<close>

datatype Session = Mounted Controller nat | Dismissed nat

definition hosted :: "Crop option \<Rightarrow> string \<Rightarrow> event \<Rightarrow> Controller \<Rightarrow> nat \<Rightarrow> error + Session \<times> effect list" where
  \<comment> \<open>An event on the mounted component, and the host's answer to \<open>onClose\<close>; \<open>k\<close> are the
      timers left running.\<close>
  "hosted crop today ev s k =
     (case dispatch crop today ev s of
        Inl err \<Rightarrow> Inl err
      | Inr (s', out) \<Rightarrow> Inr (if OnClose \<in> set out then Dismissed k else Mounted s' k, out))"

fun deliver :: "Crop option \<Rightarrow> string \<Rightarrow> event \<Rightarrow> Session \<Rightarrow> error + Session \<times> effect list" where
  "deliver crop today (DelayElapsed g) (Dismissed k) = Inr (Dismissed (k - 1), [])"
| "deliver crop today ev (Dismissed k) = Inr (Dismissed k, [])"
| "deliver crop today (DelayElapsed g) (Mounted s k) =
     (if k = 0 then Inr (Mounted s k, []) else hosted crop today (DelayElapsed g) s (k - 1))"
| "deliver crop today StartAnalysisClick (Mounted s k) =
     hosted crop today StartAnalysisClick s (if analyze_disabled crop s then k else Suc k)"
| "deliver crop today ev (Mounted s k) = hosted crop today ev s k"

fun run :: "Crop option \<Rightarrow> string \<Rightarrow> event list \<Rightarrow> Session \<Rightarrow> error + Session \<times> effect list" where
  "run crop today [] x = Inr (x, [])"
| "run crop today (e # es) x =
     (case deliver crop today e x of
        Inl err \<Rightarrow> Inl err
      | Inr (x', out) \<Rightarrow>
          (case run crop today es x' of
             Inl err \<Rightarrow> Inl err
           | Inr (x'', out') \<Rightarrow> Inr (x'', out @ out')))"

definition timer_events :: "event list \<Rightarrow> nat" where
  \<comment> \<open>How many of the events are a timer firing.\<close>
  "timer_events es = length (filter (\<lambda>ev. case ev of DelayElapsed g \<Rightarrow> True | _ \<Rightarrow> False) es)"

section \<open>Concrete inputs\<close>

text \<open>
  Sequences of draws: every \<open>Math.random()\<close> returning 0.5; every one returning the
  largest double below 1; and 0.75 for the second call (the one of \<open>detected\<close>) with 0.5
  for all others. A crop with a stored image, and the date of the examples.
\<close>

definition half_draws :: rng where
  "half_draws = (\<lambda>n. \<lparr>significand = 1, scale = 1\<rparr>)"

definition high_draws :: rng where
  "high_draws = (\<lambda>n. \<lparr>significand = 9007199254740991, scale = 53\<rparr>)"

definition split_draws :: rng where
  "split_draws =
     (\<lambda>n. if n = 1 then \<lparr>significand = 3, scale = 2\<rparr> else \<lparr>significand = 1, scale = 1\<rparr>)"

definition maize :: Crop where
  "maize = \<lparr>name = ''Maize'', crop_type = ''Cereal'', soil_type = ''Loam'',
             harvest_date = ''2024-09-01'', expiry_date = ''2024-12-01'',
             image_url = Some ''https://example.org/maize.png''\<rparr>"

definition may_day :: string where
  "may_day = ''2024-05-01''"

section \<open>Facts about the draws\<close>

subsection \<open>Rounding to 53 bits\<close>

lemma bit_length_zero: "bit_length 0 = 0"
  by (subst bit_length.simps) simp

lemma bit_length_pos: "0 < n \<Longrightarrow> bit_length n = Suc (bit_length (n div 2))"
  by (subst bit_length.simps) simp

lemma bit_length_bounds:
  "0 < n \<Longrightarrow> 2 ^ (bit_length n - 1) \<le> n \<and> n < 2 ^ bit_length n"
proof (induction n rule: bit_length.induct)
  case (1 n)
  have b: "bit_length n = Suc (bit_length (n div 2))"
    using "1.prems" by (rule bit_length_pos)
  show ?case
  proof (cases "n div 2 = 0")
    case True
    with "1.prems" have "n = 1" by (simp add: div_eq_0_iff)
    with True b show ?thesis by (simp add: bit_length_zero)
  next
    case False
    with "1.IH" "1.prems" have ih: "2 ^ (bit_length (n div 2) - 1) \<le> n div 2"
      "n div 2 < 2 ^ bit_length (n div 2)" by simp_all
    from False have "bit_length (n div 2) = Suc (bit_length (n div 2 div 2))"
      by (simp add: bit_length_pos)
    then obtain k where k: "bit_length (n div 2) = Suc k" by blast
    from ih(1) k have "2 * 2 ^ k \<le> 2 * (n div 2)" by simp
    also have "2 * (n div 2) \<le> n" by simp
    finally have lo: "2 ^ Suc k \<le> n" by simp
    from ih(2) k have "Suc (n div 2) \<le> 2 ^ Suc k" by simp
    then have "2 * Suc (n div 2) \<le> 2 * 2 ^ Suc k" by simp
    moreover have "n < 2 * Suc (n div 2)" by simp
    ultimately have hi: "n < 2 ^ Suc (Suc k)" by simp
    from lo hi show ?thesis by (simp add: b k)
  qed
qed

lemma round_half_even_upper:
  assumes "0 < d"
  shows "round_half_even p d * 2 ^ d \<le> p + 2 ^ (d - 1)"
proof -
  define q where "q = p div 2 ^ d"
  define r where "r = p mod 2 ^ d"
  define h :: nat where "h = 2 ^ (d - 1)"
  have p: "p = q * 2 ^ d + r" unfolding q_def r_def by (rule div_mult_mod_eq [symmetric])
  have hd: "(2::nat) ^ d = 2 * h" using assms by (cases d) (simp_all add: h_def)
  have "round_half_even p d * 2 ^ d \<le> p + h"
  proof (cases "h < r \<or> (r = h \<and> odd q)")
    case True
    then have hr: "h \<le> r" by auto
    from True have "round_half_even p d = q + 1"
      by (simp add: round_half_even_def Let_def q_def r_def h_def)
    then have "round_half_even p d * 2 ^ d = q * 2 ^ d + (h + h)"
      by (simp add: hd)
    also from hr have "q * 2 ^ d + (h + h) \<le> q * 2 ^ d + (r + h)" by simp
    also have "q * 2 ^ d + (r + h) = p + h" by (simp add: p)
    finally show ?thesis .
  next
    case False
    then have "round_half_even p d = q"
      by (simp add: round_half_even_def Let_def q_def r_def h_def)
    then show ?thesis using p by simp
  qed
  then show ?thesis by (simp add: h_def)
qed

lemma round53_below:
  assumes m: "m < 2 ^ 53" and e: "m < 2 ^ e" and n: "0 < n"
  shows "round53 (m * n) < n * 2 ^ e"
proof -
  define d where "d = bit_length (m * n) - 53"
  have le: "(m + 1) * n \<le> n * 2 ^ e"
  proof -
    from e have "m + 1 \<le> 2 ^ e" by simp
    then have "(m + 1) * n \<le> 2 ^ e * n" by (rule mult_le_mono1)
    then show ?thesis by (simp add: mult.commute)
  qed
  show ?thesis
  proof (cases "d = 0")
    case True
    then have "round53 (m * n) = m * n" by (simp add: round53_def Let_def d_def)
    moreover have "m * n < (m + 1) * n" using n by simp
    ultimately show ?thesis using le by (simp only: less_le_trans)
  next
    case False
    then have r: "round53 (m * n) = round_half_even (m * n) d * 2 ^ d"
      by (simp add: round53_def Let_def d_def)
    from False have b: "bit_length (m * n) = d + 53" by (simp add: d_def)
    from False have pos: "0 < m * n"
      by (cases "m * n = 0") (simp_all add: d_def bit_length_zero)
    from bit_length_bounds [OF pos] b have "2 ^ (d + 52) \<le> m * n" by (simp add: add.commute)
    also from m n have "m * n < 2 ^ 53 * n" by simp
    finally have "(2::nat) ^ (d + 52) < 2 ^ 53 * n" .
    moreover have "(2::nat) ^ (d + 52) = 2 ^ 53 * 2 ^ (d - 1)"
      using False by (cases d) (simp_all add: power_add)
    ultimately have h: "(2::nat) ^ (d - 1) < n" by simp
    from False have "0 < d" by simp
    then have "round_half_even (m * n) d * 2 ^ d \<le> m * n + 2 ^ (d - 1)"
      by (rule round_half_even_upper)
    also from h have "m * n + 2 ^ (d - 1) < m * n + n" by simp
    also have "m * n + n = (m + 1) * n" by simp
    finally show ?thesis using le r by simp
  qed
qed

text \<open>
  The floor of the double product of a draw and a positive integer \<open>n\<close> lies between 0 and
  \<open>n - 1\<close>: rounding cannot lift the product to \<open>n\<close>.
\<close>

lemma floor_times_bound:
  assumes "unit_double x" and "0 < n"
  shows "0 \<le> Math_floor (double_times x n) \<and> Math_floor (double_times x n) < int n"
proof -
  from assms have "round53 (significand x * n) < n * 2 ^ scale x"
    by (simp add: unit_double_def round53_below)
  then have "round53 (significand x * n) div 2 ^ scale x < n"
    by (rule less_mult_imp_div_less)
  then show ?thesis by (simp add: Math_floor_def double_times_def)
qed

lemma bit_length_unique:
  assumes lo: "2 ^ k \<le> n" and hi: "n < 2 ^ Suc k"
  shows "bit_length n = Suc k"
proof -
  from lo have pos: "0 < n" by (cases "n = 0") simp_all
  from bit_length_bounds [OF pos]
  have b1: "2 ^ (bit_length n - 1) \<le> n" and b2: "n < 2 ^ bit_length n" by simp_all
  from lo b2 have "(2::nat) ^ k < 2 ^ bit_length n" by (rule le_less_trans)
  then have "k < bit_length n" by (rule power_less_imp_less_exp [rotated]) simp
  moreover from b1 hi have "(2::nat) ^ (bit_length n - 1) < 2 ^ Suc k" by (rule le_less_trans)
  then have "bit_length n - 1 < Suc k" by (rule power_less_imp_less_exp [rotated]) simp
  ultimately show ?thesis by simp
qed

lemma round53_small: "p < 2 ^ 53 \<Longrightarrow> round53 p = p"
proof (cases "p = 0")
  case True
  then show ?thesis by (simp add: round53_def bit_length_zero)
next
  case False
  assume p: "p < 2 ^ 53"
  from False have "2 ^ (bit_length p - 1) \<le> p" using bit_length_bounds [of p] by simp
  from this p have "(2::nat) ^ (bit_length p - 1) < 2 ^ 53" by (rule le_less_trans)
  then have "bit_length p - 1 < 53" by (rule power_less_imp_less_exp [rotated]) simp
  then have "bit_length p - 53 = 0" by simp
  then show ?thesis by (simp add: round53_def)
qed

lemma round53_large:
  assumes "2 ^ (52 + d) \<le> p" and "p < 2 ^ (53 + d)"
  shows "round53 p = (if d = 0 then p else round_half_even p d * 2 ^ d)"
proof -
  from assms have "bit_length p = Suc (52 + d)" by (intro bit_length_unique) simp_all
  then have "bit_length p - 53 = d" by simp
  then show ?thesis by (simp add: round53_def Let_def)
qed

text \<open>
  Three draws at which rounding decides the floor: the double nearest 0.3 times 30 is
  exactly 9 (the exact product is below 9), \<open>4803839602528529 / 2 ^ 53\<close> times 30 is
  exactly 16, and the double nearest 1/3 times 3 is exactly 1.
\<close>

lemma rounded_products:
  "Math_floor (double_times \<lparr>significand = 5404319552844595, scale = 54\<rparr> 30) = 9"
  "Math_floor (double_times \<lparr>significand = 4803839602528529, scale = 53\<rparr> 30) = 16"
  "Math_floor (double_times \<lparr>significand = 6004799503160661, scale = 54\<rparr> 3) = 1"
proof -
  have a: "round53 162129586585337850 = 162129586585337856"
    by (subst round53_large [of 5]) (simp_all add: round_half_even_def Let_def)
  have b: "round53 144115188075855870 = 144115188075855872"
    by (subst round53_large [of 4]) (simp_all add: round_half_even_def Let_def)
  have c: "round53 18014398509481983 = 18014398509481984"
    by (subst round53_large [of 1]) (simp_all add: round_half_even_def Let_def)
  show "Math_floor (double_times \<lparr>significand = 5404319552844595, scale = 54\<rparr> 30) = 9"
    using a by (simp add: Math_floor_def double_times_def)
  show "Math_floor (double_times \<lparr>significand = 4803839602528529, scale = 53\<rparr> 30) = 16"
    using b by (simp add: Math_floor_def double_times_def)
  show "Math_floor (double_times \<lparr>significand = 6004799503160661, scale = 54\<rparr> 3) = 1"
    using c by (simp add: Math_floor_def double_times_def)
qed

lemma largest_draw_products:
  "Math_floor (double_times \<lparr>significand = 9007199254740991, scale = 53\<rparr> 30) = 29"
  "Math_floor (double_times \<lparr>significand = 9007199254740991, scale = 53\<rparr> 20) = 19"
  "Math_floor (double_times \<lparr>significand = 9007199254740991, scale = 53\<rparr> 50) = 49"
  "Math_floor (double_times \<lparr>significand = 9007199254740991, scale = 53\<rparr> 3) = 2"
proof -
  have a: "round53 270215977642229730 = 270215977642229728"
    by (subst round53_large [of 5]) (simp_all add: round_half_even_def Let_def)
  have b: "round53 180143985094819820 = 180143985094819808"
    by (subst round53_large [of 5]) (simp_all add: round_half_even_def Let_def)
  have c: "round53 450359962737049550 = 450359962737049536"
    by (subst round53_large [of 6]) (simp_all add: round_half_even_def Let_def)
  have d: "round53 27021597764222973 = 27021597764222972"
    by (subst round53_large [of 2]) (simp_all add: round_half_even_def Let_def)
  show "Math_floor (double_times \<lparr>significand = 9007199254740991, scale = 53\<rparr> 30) = 29"
    using a by (simp add: Math_floor_def double_times_def)
  show "Math_floor (double_times \<lparr>significand = 9007199254740991, scale = 53\<rparr> 20) = 19"
    using b by (simp add: Math_floor_def double_times_def)
  show "Math_floor (double_times \<lparr>significand = 9007199254740991, scale = 53\<rparr> 50) = 49"
    using c by (simp add: Math_floor_def double_times_def)
  show "Math_floor (double_times \<lparr>significand = 9007199254740991, scale = 53\<rparr> 3) = 2"
    using d by (simp add: Math_floor_def double_times_def)
qed

lemma half_products:
  "Math_floor (double_times (half_draws n) 30) = 15"
  "Math_floor (double_times (half_draws n) 20) = 10"
  "Math_floor (double_times (half_draws n) 50) = 25"
  "Math_floor (double_times (half_draws n) 3) = 1"
  "double_greater (half_draws n) point_seven = False"
  by (simp_all add: half_draws_def Math_floor_def double_times_def round53_small
      double_greater_def point_seven_def)

subsection \<open>The fields of the mock result\<close>

lemma draw_fields:
  "healthScore (mockResult g) = Math_floor (double_times (g 0) 30) + 70"
  "detected (diseaseDetection (mockResult g)) = double_greater (g 1) point_seven"
  "diseases (diseaseDetection (mockResult g)) =
     (if double_greater (g 2) point_seven then [''Leaf Blight'', ''Powdery Mildew''] else [])"
  "confidence (diseaseDetection (mockResult g)) = Math_floor (double_times (g 3) 20) + 80"
  "expectedPrice (marketPrediction (mockResult g)) = Math_floor (double_times (g 4) 50) + 25"
  "demandLevel (marketPrediction (mockResult g)) =
     js_index [''Low'', ''Medium'', ''High''] (Math_floor (double_times (g 5) 3))"
  "soilHealth (environmentalFactors (mockResult g)) = Math_floor (double_times (g 6) 30) + 70"
  "pestRisk (environmentalFactors (mockResult g)) =
     js_index [''Low'', ''Medium'', ''High''] (Math_floor (double_times (g 7) 3))"
  by (simp_all add: mockResult_def Math_random_def eval_nat_numeral)

lemma level_defined:
  fixes i :: int
  assumes "0 \<le> i" and "i < 3"
  shows "js_index [''Low'', ''Medium'', ''High''] i \<in> {Some ''Low'', Some ''Medium'', Some ''High''}"
proof -
  from assms have "i = 0 \<or> i = 1 \<or> i = 2" by arith
  then show ?thesis by (auto simp: js_index_def)
qed

lemma unit_draws_examples: "unit_draws half_draws" "unit_draws high_draws" "unit_draws split_draws"
  by (simp_all add: unit_draws_def unit_double_def half_draws_def high_draws_def split_draws_def)

lemma mockResult_half_draws:
  "mockResult half_draws =
     \<lparr>healthScore = 85,
      diseaseDetection = \<lparr>detected = False, diseases = [], confidence = 90\<rparr>,
      recommendations =
        [''Increase watering frequency by 20%'',
         ''Apply organic fertilizer rich in nitrogen'',
         ''Monitor for pest activity in the next 7 days'',
         ''Consider companion planting with marigolds'',
         ''Harvest within 2-3 weeks for optimal quality''],
      marketPrediction =
        \<lparr>expectedPrice = 50, demandLevel = Some ''Medium'', bestHarvestTime = ''Next 2-3 weeks''\<rparr>,
      environmentalFactors =
        \<lparr>soilHealth = 85, weatherImpact = ''Favorable conditions expected'',
         pestRisk = Some ''Medium''\<rparr>\<rparr>"
  by (simp add: mockResult_def Math_random_def half_products js_index_def)

section \<open>Bounds of the randomised fields\<close>

text \<open>
  C7. With every draw a double of \<open>[0, 1)\<close>, a synthesized result has healthScore and
  soilHealth between 70 and 100, confidence between 80 and 100, expectedPrice between 25
  and 75, and demandLevel and pestRisk among Low, Medium and High (never \<open>undefined\<close>).
\<close>

theorem synthesized_ranges:
  assumes "unit_draws g"
  shows "70 \<le> healthScore (mockResult g) \<and> healthScore (mockResult g) \<le> 100
    \<and> 70 \<le> soilHealth (environmentalFactors (mockResult g))
    \<and> soilHealth (environmentalFactors (mockResult g)) \<le> 100
    \<and> 80 \<le> confidence (diseaseDetection (mockResult g))
    \<and> confidence (diseaseDetection (mockResult g)) \<le> 100
    \<and> 25 \<le> expectedPrice (marketPrediction (mockResult g))
    \<and> expectedPrice (marketPrediction (mockResult g)) \<le> 75
    \<and> demandLevel (marketPrediction (mockResult g)) \<in> {Some ''Low'', Some ''Medium'', Some ''High''}
    \<and> pestRisk (environmentalFactors (mockResult g)) \<in> {Some ''Low'', Some ''Medium'', Some ''High''}"
proof -
  have u: "\<And>n. unit_double (g n)" using assms by (simp add: unit_draws_def)
  have a: "0 \<le> Math_floor (double_times (g 0) 30) \<and> Math_floor (double_times (g 0) 30) < 30"
    using floor_times_bound [OF u, of 30 0] by simp
  have b: "0 \<le> Math_floor (double_times (g 3) 20) \<and> Math_floor (double_times (g 3) 20) < 20"
    using floor_times_bound [OF u, of 20 3] by simp
  have c: "0 \<le> Math_floor (double_times (g 4) 50) \<and> Math_floor (double_times (g 4) 50) < 50"
    using floor_times_bound [OF u, of 50 4] by simp
  have d: "0 \<le> Math_floor (double_times (g 5) 3) \<and> Math_floor (double_times (g 5) 3) < 3"
    using floor_times_bound [OF u, of 3 5] by simp
  have e: "0 \<le> Math_floor (double_times (g 6) 30) \<and> Math_floor (double_times (g 6) 30) < 30"
    using floor_times_bound [OF u, of 30 6] by simp
  have f: "0 \<le> Math_floor (double_times (g 7) 3) \<and> Math_floor (double_times (g 7) 3) < 3"
    using floor_times_bound [OF u, of 3 7] by simp
  show ?thesis
    using a b c e level_defined [of "Math_floor (double_times (g 5) 3)"]
      level_defined [of "Math_floor (double_times (g 7) 3)"] d f
    by (simp add: draw_fields)
qed

theorem synthesized_ranges_witness:
  "unit_draws half_draws
    \<and> 70 \<le> healthScore (mockResult half_draws) \<and> healthScore (mockResult half_draws) \<le> 100
    \<and> 70 \<le> soilHealth (environmentalFactors (mockResult half_draws))
    \<and> soilHealth (environmentalFactors (mockResult half_draws)) \<le> 100
    \<and> 80 \<le> confidence (diseaseDetection (mockResult half_draws))
    \<and> confidence (diseaseDetection (mockResult half_draws)) \<le> 100
    \<and> 25 \<le> expectedPrice (marketPrediction (mockResult half_draws))
    \<and> expectedPrice (marketPrediction (mockResult half_draws)) \<le> 75
    \<and> demandLevel (marketPrediction (mockResult half_draws))
        \<in> {Some ''Low'', Some ''Medium'', Some ''High''}
    \<and> pestRisk (environmentalFactors (mockResult half_draws))
        \<in> {Some ''Low'', Some ''Medium'', Some ''High''}"
  using unit_draws_examples(1) synthesized_ranges [OF unit_draws_examples(1)] by simp

text \<open>
  C10. With every draw a double of \<open>[0, 1)\<close>, healthScore, soilHealth and confidence are
  at most 99 and expectedPrice is at most 74: the values 100 and 75 are never produced.
\<close>

theorem synthesized_below_maxima:
  assumes "unit_draws g"
  shows "healthScore (mockResult g) \<le> 99
    \<and> soilHealth (environmentalFactors (mockResult g)) \<le> 99
    \<and> confidence (diseaseDetection (mockResult g)) \<le> 99
    \<and> expectedPrice (marketPrediction (mockResult g)) \<le> 74
    \<and> healthScore (mockResult g) \<noteq> 100
    \<and> soilHealth (environmentalFactors (mockResult g)) \<noteq> 100
    \<and> confidence (diseaseDetection (mockResult g)) \<noteq> 100
    \<and> expectedPrice (marketPrediction (mockResult g)) \<noteq> 75"
proof -
  have u: "\<And>n. unit_double (g n)" using assms by (simp add: unit_draws_def)
  have a: "Math_floor (double_times (g 0) 30) < 30"
    using floor_times_bound [OF u, of 30 0] by simp
  have b: "Math_floor (double_times (g 3) 20) < 20"
    using floor_times_bound [OF u, of 20 3] by simp
  have c: "Math_floor (double_times (g 4) 50) < 50"
    using floor_times_bound [OF u, of 50 4] by simp
  have e: "Math_floor (double_times (g 6) 30) < 30"
    using floor_times_bound [OF u, of 30 6] by simp
  show ?thesis using a b c e by (simp add: draw_fields)
qed

text \<open>The maxima 99 and 74 are reached when every draw is the largest double below 1.\<close>

theorem synthesized_below_maxima_witness:
  "unit_draws high_draws
    \<and> healthScore (mockResult high_draws) = 99
    \<and> soilHealth (environmentalFactors (mockResult high_draws)) = 99
    \<and> confidence (diseaseDetection (mockResult high_draws)) = 99
    \<and> expectedPrice (marketPrediction (mockResult high_draws)) = 74"
proof -
  have v: "healthScore (mockResult high_draws) = 99
    \<and> soilHealth (environmentalFactors (mockResult high_draws)) = 99
    \<and> confidence (diseaseDetection (mockResult high_draws)) = 99
    \<and> expectedPrice (marketPrediction (mockResult high_draws)) = 74"
    by (simp add: draw_fields high_draws_def largest_draw_products)
  show ?thesis
    using v unit_draws_examples(2) synthesized_below_maxima [OF unit_draws_examples(2)] by simp
qed

section \<open>Disease detection\<close>

text \<open>
  C1. The claim: diseases is non-empty exactly when detected is true. The object literal
  draws \<open>Math.random()\<close> once for \<open>detected\<close> and once more for \<open>diseases\<close>, so the two can
  disagree: with the second draw at 0.75 and all others at 0.5 (every draw in \<open>[0, 1)\<close>),
  detected is true and diseases is empty.
\<close>

theorem detected_without_diseases:
  "unit_draws split_draws
    \<and> detected (diseaseDetection (mockResult split_draws)) = True
    \<and> diseases (diseaseDetection (mockResult split_draws)) = []"
  by (simp add: unit_draws_examples draw_fields)
    (simp add: split_draws_def double_greater_def point_seven_def)

text \<open>The list itself is always one of the two that the claim names.\<close>

lemma diseases_either:
  "diseases (diseaseDetection (mockResult g)) = []
    \<or> diseases (diseaseDetection (mockResult g)) = [''Leaf Blight'', ''Powdery Mildew'']"
  by (simp add: draw_fields)

section \<open>The workflow\<close>

lemma analyzed_maize:
  "run (Some maize) may_day [StartAnalysisClick, DelayElapsed half_draws] (Mounted initial 0)
     = Inr (Mounted \<lparr>selectedImage = None, imagePreview = '''', analyzing = False,
                     analysisResult = Some (mockResult half_draws), analysisType = disease\<rparr> 0, [])"
  by (simp add: initial_def maize_def analyze_disabled_def crop_image_url_def hosted_def
      simulateAIAnalysis_begin_def simulateAIAnalysis_resume_def)

lemma deliver_dismissed:
  "deliver crop today ev (Dismissed k) = Inr (Dismissed (k - timer_events [ev]), [])"
  by (cases ev) (simp_all add: timer_events_def)

lemma run_dismissed:
  "run crop today es (Dismissed k) = Inr (Dismissed (k - timer_events es), [])"
proof (induction es arbitrary: k)
  case Nil
  show ?case by (simp add: timer_events_def)
next
  case (Cons ev es)
  have "timer_events (ev # es) = timer_events [ev] + timer_events es"
    by (simp add: timer_events_def)
  then show ?case by (simp add: deliver_dismissed Cons.IH)
qed

text \<open>
  C2. Close dismisses the component, whatever its state: in particular while an analysis
  is in flight. Whatever happens afterwards, the delay elapsing included, the session
  stays dismissed: there is no controller left in which the would-be result could be
  stored or the Complete state observed, and the only effect is the call of \<open>onClose\<close>.
\<close>

theorem close_discards_result:
  "run crop today (CloseClick # es) (Mounted s k)
     = Inr (Dismissed (k - timer_events es), [OnClose])"
  by (simp add: hosted_def run_dismissed)

text \<open>
  Scenario C: an analysis of the crop's image is started, Close is called before the
  delay elapses, and then the delay elapses. Without the Close the result is stored
  (\<open>analyzed_maize\<close>).
\<close>

theorem close_discards_result_witness:
  "run (Some maize) may_day [StartAnalysisClick, CloseClick, DelayElapsed half_draws]
       (Mounted initial 0)
     = Inr (Dismissed 0, [OnClose])"
proof -
  have "deliver (Some maize) may_day StartAnalysisClick (Mounted initial 0)
      = Inr (Mounted (simulateAIAnalysis_begin initial) 1, [])"
    by (simp add: initial_def maize_def analyze_disabled_def crop_image_url_def hosted_def)
  then show ?thesis
    using close_discards_result [of "Some maize" may_day "[DelayElapsed half_draws]"
        "simulateAIAnalysis_begin initial" 1]
    by (simp add: timer_events_def)
qed

text \<open>
  C3. The claim: selecting an image discards a stored result. \<open>handleImageUpload\<close> and
  \<open>reader.onload\<close> set \<open>selectedImage\<close> and \<open>imagePreview\<close> only. After an analysis of the
  crop's own image the file input is still shown; an upload that loads leaves the result
  where it was.
\<close>

theorem upload_keeps_result:
  "run (Some maize) may_day
       [StartAnalysisClick, DelayElapsed half_draws,
        Upload (Some ''leaf.png''), ReaderLoad ''data:image/png;base64,AAAA'']
       (Mounted initial 0)
     = Inr (Mounted \<lparr>selectedImage = Some ''leaf.png'',
                     imagePreview = ''data:image/png;base64,AAAA'',
                     analyzing = False, analysisResult = Some (mockResult half_draws),
                     analysisType = disease\<rparr> 0, [])"
  by (simp add: initial_def maize_def analyze_disabled_def crop_image_url_def hosted_def
      handleImageUpload_def reader_onload_def simulateAIAnalysis_begin_def
      simulateAIAnalysis_resume_def)

text \<open>
  C3 as amended: for every controller state, selecting a file that then loads sets
  \<open>selectedImage\<close> to the file and \<open>imagePreview\<close> to its data URL, and changes nothing
  else: \<open>analysisResult\<close>, \<open>analyzing\<close> and \<open>analysisType\<close> are kept.
\<close>

theorem upload_sets_image_only:
  "reader_onload url (handleImageUpload (Some f) s) = s\<lparr>selectedImage := Some f, imagePreview := url\<rparr>
    \<and> analysisResult (reader_onload url (handleImageUpload (Some f) s)) = analysisResult s
    \<and> analyzing (reader_onload url (handleImageUpload (Some f) s)) = analyzing s
    \<and> analysisType (reader_onload url (handleImageUpload (Some f) s)) = analysisType s"
  by (simp add: handleImageUpload_def reader_onload_def)

text \<open>
  C4. The claim: removing the image clears a stored result and returns to Idle. The Remove
  Image button sets \<open>selectedImage\<close> and \<open>imagePreview\<close> only. With no crop: upload, load,
  analyse, then remove; the result is still stored.
\<close>

theorem remove_keeps_result:
  "run None may_day
       [Upload (Some ''leaf.png''), ReaderLoad ''data:image/png;base64,AAAA'',
        StartAnalysisClick, DelayElapsed half_draws, RemoveImageClick]
       (Mounted initial 0)
     = Inr (Mounted \<lparr>selectedImage = None, imagePreview = '''', analyzing = False,
                     analysisResult = Some (mockResult half_draws), analysisType = disease\<rparr> 0,
            [])"
  by (simp add: initial_def analyze_disabled_def crop_image_url_def hosted_def
      handleImageUpload_def reader_onload_def removeImage_def simulateAIAnalysis_begin_def
      simulateAIAnalysis_resume_def)

text \<open>
  C4 as amended: for every controller state, removing the image clears the selected image
  and the preview and changes nothing else: \<open>analysisResult\<close>, \<open>analyzing\<close> and
  \<open>analysisType\<close> are kept.
\<close>

theorem remove_clears_image_only:
  "removeImage s = s\<lparr>selectedImage := None, imagePreview := ''''\<rparr>
    \<and> selectedImage (removeImage s) = None
    \<and> imagePreview (removeImage s) = ''''
    \<and> analysisResult (removeImage s) = analysisResult s
    \<and> analyzing (removeImage s) = analyzing s
    \<and> analysisType (removeImage s) = analysisType s"
  by (simp add: removeImage_def)

text \<open>
  C5. The claim: starting an analysis with no image yields a PreconditionError. With no
  selected image and no crop, the Start button is disabled: the click reaches no handler,
  the state is the initial one, and nothing is reported.
\<close>

theorem start_without_image_no_error:
  "dispatch None may_day StartAnalysisClick initial = Inr (initial, [])
    \<and> dispatch None may_day StartAnalysisClick initial \<noteq> Inl PreconditionError"
  by (simp add: initial_def analyze_disabled_def crop_image_url_def)

text \<open>
  C5 as amended: with no selected image and no crop image, a click on Start changes no
  field, produces no result and no effect, and reports no error.
\<close>

theorem start_without_image_ignored:
  assumes "selectedImage s = None" and "crop_image_url crop = False"
  shows "dispatch crop today StartAnalysisClick s = Inr (s, [])"
  using assms by (simp add: analyze_disabled_def)

theorem start_without_image_ignored_witness:
  "selectedImage initial = None \<and> crop_image_url None = False
    \<and> dispatch None may_day StartAnalysisClick initial = Inr (initial, [])"
proof -
  have h1: "selectedImage initial = None" by (simp add: initial_def)
  have h2: "crop_image_url None = False" by (simp add: crop_image_url_def)
  show ?thesis using h1 h2 start_without_image_ignored [OF h1 h2, of may_day] by simp
qed

text \<open>
  C6. The claim: a file that cannot be read surfaces a DecodeError and leaves the prior
  state. \<open>handleImageUpload\<close> stores the file before the read starts, and the reader has no
  \<open>onerror\<close>: when the read fails nothing more happens, so the file stays selected (which
  enables the Start button) while no error is reported.
\<close>

theorem failed_read_keeps_file:
  "dispatch None may_day (Upload (Some ''broken.png'')) initial
     = Inr (\<lparr>selectedImage = Some ''broken.png'', imagePreview = '''', analyzing = False,
              analysisResult = None, analysisType = disease\<rparr>, [])
    \<and> dispatch None may_day (Upload (Some ''broken.png'')) initial \<noteq> Inl DecodeError
    \<and> dispatch None may_day (Upload (Some ''broken.png'')) initial \<noteq> Inr (initial, [])"
  by (simp add: initial_def handleImageUpload_def)

text \<open>
  C6 as amended: when the selected file cannot be read, no error is surfaced;
  \<open>selectedImage\<close> holds the file, and the preview, the result, \<open>analyzing\<close> and the
  analysis type keep their prior values.
\<close>

theorem failed_read_state:
  "handleImageUpload (Some f) s = s\<lparr>selectedImage := Some f\<rparr>
    \<and> imagePreview (handleImageUpload (Some f) s) = imagePreview s
    \<and> analysisResult (handleImageUpload (Some f) s) = analysisResult s
    \<and> analyzing (handleImageUpload (Some f) s) = analyzing s
    \<and> analysisType (handleImageUpload (Some f) s) = analysisType s
    \<and> dispatch crop today (Upload (Some f)) s \<noteq> Inl DecodeError"
  by (simp add: handleImageUpload_def)

text \<open>
  C9. The analysis type does not reach the synthesized result: for the same draws, two
  runs that differ in the selected type store the same AnalysisResult, and their final
  states differ in \<open>analysisType\<close> only.
\<close>

theorem analysis_type_noninterference:
  "analysisResult (simulateAIAnalysis_resume g (simulateAIAnalysis_begin (setAnalysisType t1 s)))
     = analysisResult (simulateAIAnalysis_resume g (simulateAIAnalysis_begin (setAnalysisType t2 s)))
   \<and> simulateAIAnalysis_resume g (simulateAIAnalysis_begin (setAnalysisType t1 s))
     = setAnalysisType t1 (simulateAIAnalysis_resume g (simulateAIAnalysis_begin s))
   \<and> analysisResult (simulateAIAnalysis_resume g (simulateAIAnalysis_begin (setAnalysisType t1 s)))
     = Some (mockResult g)"
  by (simp add: simulateAIAnalysis_resume_def simulateAIAnalysis_begin_def setAnalysisType_def)

section \<open>Reading back what JSON.stringify wrote\<close>

subsection \<open>White space, punctuation and literals\<close>

lemma tokenize_skip_ws: "is_ws c \<Longrightarrow> tokenize (c # cs) = tokenize cs"
  by (subst tokenize.simps, subst (2) tokenize.simps) simp

lemma tokenize_indent: "tokenize (indent k @ cs) = tokenize cs"
proof -
  have "\<And>n. tokenize (replicate n CHR '' '' @ cs) = tokenize cs"
  proof -
    fix n show "tokenize (replicate n CHR '' '' @ cs) = tokenize cs"
      by (induction n) (simp_all add: tokenize_skip_ws is_ws_def)
  qed
  then show ?thesis by (simp add: indent_def)
qed

lemma tokenize_newline: "tokenize (CHR 0x0A # cs) = tokenize cs"
  by (simp add: tokenize_skip_ws is_ws_def)

lemma tokenize_token:
  assumes "\<not> is_ws c"
  shows "tokenize (c # cs) = (case next_token (c # cs) of None \<Rightarrow> None | Some (t, r) \<Rightarrow> put_token t (tokenize r))"
  using assms by (subst tokenize.simps) simp

lemma tokenize_punctuation:
  "tokenize (CHR ''{'' # cs) = put_token TLBrace (tokenize cs)"
  "tokenize (CHR ''}'' # cs) = put_token TRBrace (tokenize cs)"
  "tokenize (CHR ''['' # cs) = put_token TLBracket (tokenize cs)"
  "tokenize (CHR '']'' # cs) = put_token TRBracket (tokenize cs)"
  "tokenize (CHR '':'' # cs) = put_token TColon (tokenize cs)"
  "tokenize (CHR '','' # cs) = put_token TComma (tokenize cs)"
  by (simp_all add: tokenize_token is_ws_def next_token_def punctuation_def)

lemma tokenize_literals:
  "tokenize (''true'' @ cs) = put_token TTrue (tokenize cs)"
  "tokenize (''false'' @ cs) = put_token TFalse (tokenize cs)"
  "tokenize (''null'' @ cs) = put_token TNull (tokenize cs)"
  by (simp_all add: tokenize_token is_ws_def next_token_def punctuation_def is_digit_def literal_token_def)

subsection \<open>Strings\<close>

lemma hex_value_hex_char: "d < 16 \<Longrightarrow> hex_value (hex_char d) = Some d"
  by (simp add: hex_value_def hex_char_def Let_def)

lemma hex4_control:
  assumes "n < 256"
  shows "hex4 CHR ''0'' CHR ''0'' (hex_char (n div 16)) (hex_char (n mod 16)) = Some n"
proof -
  have z: "hex_value CHR ''0'' = Some 0" by (simp add: hex_value_def)
  from assms have "n div 16 < 16" by simp
  then have a: "hex_value (hex_char (n div 16)) = Some (n div 16)" by (rule hex_value_hex_char)
  have b: "hex_value (hex_char (n mod 16)) = Some (n mod 16)" by (rule hex_value_hex_char) simp
  show ?thesis by (simp add: hex4_def z a b)
qed

lemma unescape_u:
  "unescape (CHR ''u'' # CHR ''0'' # CHR ''0'' # hex_char (of_char c div 16)
      # hex_char (of_char c mod 16) # cs) = Some (c, cs)"
proof -
  have "(of_char c :: nat) < 256" by simp
  from hex4_control [OF this] show ?thesis by (simp add: unescape_def)
qed

lemma lex_string_quote_char:
  assumes "lex_string cs = Some (s, r)"
  shows "lex_string (quote_char c @ cs) = Some (c # s, r)"
proof -
  consider (b) "c = CHR 0x08" | (t) "c = CHR 0x09" | (n) "c = CHR 0x0A" | (f) "c = CHR 0x0C"
    | (r) "c = CHR 0x0D" | (q) "c = CHR 0x22" | (s) "c = CHR 0x5C"
    | (u) "c \<noteq> CHR 0x08" "c \<noteq> CHR 0x09" "c \<noteq> CHR 0x0A" "c \<noteq> CHR 0x0C" "c \<noteq> CHR 0x0D"
          "c \<noteq> CHR 0x22" "c \<noteq> CHR 0x5C" "(of_char c :: nat) < 32"
    | (p) "c \<noteq> CHR 0x08" "c \<noteq> CHR 0x09" "c \<noteq> CHR 0x0A" "c \<noteq> CHR 0x0C" "c \<noteq> CHR 0x0D"
          "c \<noteq> CHR 0x22" "c \<noteq> CHR 0x5C" "\<not> (of_char c :: nat) < 32"
    by blast
  then show ?thesis
  proof cases
    case b then show ?thesis using assms by (simp add: quote_char_def unescape_def put_char_def)
  next
    case t then show ?thesis using assms by (simp add: quote_char_def unescape_def put_char_def)
  next
    case n then show ?thesis using assms by (simp add: quote_char_def unescape_def put_char_def)
  next
    case f then show ?thesis using assms by (simp add: quote_char_def unescape_def put_char_def)
  next
    case r then show ?thesis using assms by (simp add: quote_char_def unescape_def put_char_def)
  next
    case q then show ?thesis using assms by (simp add: quote_char_def unescape_def put_char_def)
  next
    case s then show ?thesis using assms by (simp add: quote_char_def unescape_def put_char_def)
  next
    case u
    then have "quote_char c = [CHR 0x5C, CHR ''u'', CHR ''0'', CHR ''0'',
        hex_char (of_char c div 16), hex_char (of_char c mod 16)]"
      by (simp add: quote_char_def)
    then show ?thesis using assms by (simp add: unescape_u put_char_def)
  next
    case p
    then have "quote_char c = [c]" by (simp add: quote_char_def)
    then show ?thesis using assms p by (simp add: put_char_def)
  qed
qed

lemma lex_string_quoted:
  "lex_string (concat (map quote_char s) @ CHR 0x22 # cs) = Some (s, cs)"
  by (induction s) (simp_all add: lex_string_quote_char)

lemma tokenize_QuoteJSONString:
  "tokenize (QuoteJSONString s @ cs) = put_token (TString s) (tokenize cs)"
  by (simp add: QuoteJSONString_def tokenize_token is_ws_def next_token_def punctuation_def
      lex_string_quoted)

subsection \<open>Numbers\<close>

lemma is_digit_digit_char: "d < 10 \<Longrightarrow> is_digit (digit_char d)"
  by (simp add: is_digit_def digit_char_def)

lemma digit_value_digit_char: "d < 10 \<Longrightarrow> digit_value (digit_char d) = d"
  by (simp add: digit_value_def digit_char_def)

lemma digit_char_zero: "d < 10 \<Longrightarrow> digit_char d = CHR ''0'' \<Longrightarrow> d = 0"
proof -
  assume d: "d < 10" and e: "digit_char d = CHR ''0''"
  from e have "(of_char (digit_char d) :: nat) = of_char CHR ''0''" by simp
  with d show "d = 0" by (simp add: digit_char_def)
qed

lemma digits_not_empty: "digits n \<noteq> []"
  by (subst digits.simps) simp

lemma digits_all_digit: "\<forall>c \<in> set (digits n). is_digit c"
proof (induction n rule: digits.induct)
  case (1 n)
  show ?case
  proof (cases "n < 10")
    case True
    then show ?thesis by (subst digits.simps) (simp add: is_digit_digit_char)
  next
    case False
    with 1 show ?thesis by (subst digits.simps) (simp add: is_digit_digit_char)
  qed
qed

lemma digits_value_snoc: "digits_value (ds @ [d]) = 10 * digits_value ds + digit_value d"
  by (simp add: digits_value_def)

lemma digits_value_digits: "digits_value (digits n) = n"
proof (induction n rule: digits.induct)
  case (1 n)
  show ?case
  proof (cases "n < 10")
    case True
    then show ?thesis
      by (subst digits.simps) (simp add: digits_value_def digit_value_digit_char)
  next
    case False
    with 1 have "digits_value (digits (n div 10)) = n div 10" by simp
    with False show ?thesis
      by (subst digits.simps) (simp add: digits_value_snoc digit_value_digit_char)
  qed
qed

lemma digits_leading_zero: "hd (digits n) = CHR ''0'' \<Longrightarrow> n = 0"
proof (induction n rule: digits.induct)
  case (1 n)
  show ?case
  proof (cases "n < 10")
    case True
    with "1.prems" show ?thesis
      by (subst (asm) digits.simps) (simp add: digit_char_zero)
  next
    case False
    with "1.prems" have "hd (digits (n div 10)) = CHR ''0''"
      by (subst (asm) digits.simps) (simp add: digits_not_empty)
    with "1.IH" False have "n div 10 = 0" by simp
    with False show ?thesis by simp
  qed
qed

lemma digits_small: "n < 10 \<Longrightarrow> digits n = [digit_char n]"
  by (subst digits.simps) simp

lemma digits_no_leading_zero: "\<not> (hd (digits n) = CHR ''0'' \<and> tl (digits n) \<noteq> [])"
proof
  assume a: "hd (digits n) = CHR ''0'' \<and> tl (digits n) \<noteq> []"
  then have "n = 0" using digits_leading_zero by blast
  then have "tl (digits n) = []" by (simp add: digits_small)
  with a show False by simp
qed

lemma takeWhile_digits:
  assumes "number_end cs"
  shows "takeWhile is_digit (digits n @ cs) = digits n"
    and "dropWhile is_digit (digits n @ cs) = cs"
proof -
  from assms have e: "takeWhile is_digit cs = []" "dropWhile is_digit cs = cs"
    by (cases cs; simp add: number_end_def)+
  show "takeWhile is_digit (digits n @ cs) = digits n"
    using digits_all_digit [of n] e by (simp add: takeWhile_append2)
  show "dropWhile is_digit (digits n @ cs) = cs"
    using digits_all_digit [of n] e by (simp add: dropWhile_append2)
qed

lemma hd_digits_is_digit: "is_digit (hd (digits n))"
  using digits_all_digit [of n] digits_not_empty [of n] by (cases "digits n") auto

lemma is_digit_not_minus: "is_digit c \<Longrightarrow> c \<noteq> CHR ''-''"
  by (auto simp: is_digit_def)

lemma number_end_head:
  "number_end cs \<Longrightarrow> \<not> (cs \<noteq> [] \<and> (hd cs = CHR ''.'' \<or> hd cs = CHR ''e'' \<or> hd cs = CHR ''E''))"
  by (cases cs) (auto simp: number_end_def)

lemma lex_number_natural:
  assumes "number_end cs"
  shows "lex_number (digits n @ cs) = Some (int n, cs)"
proof -
  have h: "hd (digits n @ cs) \<noteq> CHR ''-''"
    using hd_digits_is_digit [of n] digits_not_empty [of n] by (simp add: is_digit_not_minus)
  show ?thesis
    unfolding lex_number_def Let_def
    using h takeWhile_digits [OF assms, of n] digits_not_empty [of n] digits_no_leading_zero [of n]
      number_end_head [OF assms]
    by (simp add: digits_value_digits)
qed

lemma lex_number_negative:
  assumes "number_end cs"
  shows "lex_number (CHR ''-'' # digits n @ cs) = Some (- int n, cs)"
  unfolding lex_number_def Let_def
  using takeWhile_digits [OF assms, of n] digits_not_empty [of n] digits_no_leading_zero [of n]
    number_end_head [OF assms]
  by (simp add: digits_value_digits)

lemma lex_number_toString:
  assumes "number_end cs"
  shows "lex_number (Number_toString i @ cs) = Some (i, cs)"
proof (cases "i < 0")
  case True
  then show ?thesis
    using lex_number_negative [OF assms, of "nat (- i)"] by (simp add: Number_toString_def)
next
  case False
  then show ?thesis
    using lex_number_natural [OF assms, of "nat i"] by (simp add: Number_toString_def)
qed

lemma is_digit_token_start:
  assumes "is_digit c"
  shows "\<not> is_ws c" and "punctuation c = None" and "c \<noteq> CHR 0x22"
  using assms by (auto simp: is_digit_def is_ws_def punctuation_def)

lemma Number_toString_start:
  "\<exists>c cs. Number_toString i = c # cs \<and> (c = CHR ''-'' \<or> is_digit c)"
proof (cases "i < 0")
  case True
  then show ?thesis by (simp add: Number_toString_def)
next
  case False
  obtain c cs where d: "digits (nat i) = c # cs"
    using digits_not_empty [of "nat i"] by (cases "digits (nat i)") auto
  with hd_digits_is_digit [of "nat i"] have "is_digit c" by simp
  with d False show ?thesis by (simp add: Number_toString_def)
qed

lemma tokenize_Number_toString:
  assumes "number_end cs"
  shows "tokenize (Number_toString i @ cs) = put_token (TNumber i) (tokenize cs)"
proof -
  obtain c r where s: "Number_toString i = c # r" and c: "c = CHR ''-'' \<or> is_digit c"
    using Number_toString_start [of i] by blast
  from c have w: "\<not> is_ws c" and p: "punctuation c = None" and q: "c \<noteq> CHR 0x22"
    using is_digit_token_start [of c] by (auto simp: is_ws_def punctuation_def)
  have n: "lex_number (c # r @ cs) = Some (i, cs)"
    using lex_number_toString [OF assms, of i] s by simp
  have "next_token (c # r @ cs) = Some (TNumber i, cs)"
    using c p q n by (simp add: next_token_def)
  then show ?thesis using w s by (simp add: tokenize_token)
qed

subsection \<open>From the serialized text to tokens\<close>

lemma put_tokens_algebra:
  "put_token t res = put_tokens [t] res"
  "put_tokens xs (put_tokens ys res) = put_tokens (xs @ ys) res"
  "put_tokens [] res = res"
  by (simp_all add: put_token_def put_tokens_def split: option.splits)

lemma number_end_simps:
  "number_end []"
  "number_end (CHR '','' # cs)"
  "number_end (CHR 0x0A # cs)"
  by (simp_all add: number_end_def is_digit_def)

lemma tokenize_literal_chars:
  "tokenize (CHR ''t'' # CHR ''r'' # CHR ''u'' # CHR ''e'' # cs) = put_token TTrue (tokenize cs)"
  "tokenize (CHR ''f'' # CHR ''a'' # CHR ''l'' # CHR ''s'' # CHR ''e'' # cs) = put_token TFalse (tokenize cs)"
  "tokenize (CHR ''n'' # CHR ''u'' # CHR ''l'' # CHR ''l'' # cs) = put_token TNull (tokenize cs)"
  using tokenize_literals [of cs] by simp_all

lemma tokenize_serialize:
  "number_end cs \<Longrightarrow> tokenize (serialize k v @ cs) = put_tokens (tokens v) (tokenize cs)"
  "number_end cs \<Longrightarrow> tokenize (serialize_elements k vs @ cs) = put_tokens (tokens_elements vs) (tokenize cs)"
  "number_end cs \<Longrightarrow> tokenize (serialize_members k ms @ cs) = put_tokens (tokens_members ms) (tokenize cs)"
proof (induction k v and k vs and k ms arbitrary: cs and cs and cs
    rule: serialize_serialize_elements_serialize_members.induct)
  case (1 k)
  then show ?case by (simp add: tokenize_literal_chars put_tokens_algebra)
next
  case (2 k b)
  then show ?case by (simp add: tokenize_literal_chars put_tokens_algebra)
next
  case (3 k i)
  then show ?case by (simp add: tokenize_Number_toString put_tokens_algebra)
next
  case (4 k s)
  then show ?case by (simp add: tokenize_QuoteJSONString put_tokens_algebra)
next
  case (5 k)
  then show ?case by (simp add: tokenize_punctuation put_tokens_algebra)
next
  case (6 k v vs)
  have "tokenize (serialize_elements (Suc k) (v # vs) @ CHR 0x0A # indent k @ CHR '']'' # cs)
      = put_tokens (tokens_elements (v # vs)) (tokenize (CHR 0x0A # indent k @ CHR '']'' # cs))"
    by (rule "6.IH") (simp add: number_end_simps)
  then show ?case
    by (simp add: tokenize_punctuation tokenize_newline tokenize_indent put_tokens_algebra)
next
  case (7 k)
  then show ?case by (simp add: tokenize_punctuation put_tokens_algebra)
next
  case (8 k m ms)
  have "tokenize (serialize_members (Suc k) (m # ms) @ CHR 0x0A # indent k @ CHR ''}'' # cs)
      = put_tokens (tokens_members (m # ms)) (tokenize (CHR 0x0A # indent k @ CHR ''}'' # cs))"
    by (rule "8.IH") (simp add: number_end_simps)
  then show ?case
    by (simp add: tokenize_punctuation tokenize_newline tokenize_indent put_tokens_algebra)
next
  case (9 k)
  then show ?case by (simp add: put_tokens_algebra)
next
  case (10 k v)
  then show ?case by simp
next
  case (11 k v w vs)
  have a: "tokenize (serialize k v @ CHR '','' # CHR 0x0A # indent k @ serialize_elements k (w # vs) @ cs)
      = put_tokens (tokens v) (tokenize (CHR '','' # CHR 0x0A # indent k @ serialize_elements k (w # vs) @ cs))"
    by (rule "11.IH"(1)) (simp add: number_end_simps)
  have b: "tokenize (serialize_elements k (w # vs) @ cs) = put_tokens (tokens_elements (w # vs)) (tokenize cs)"
    by (rule "11.IH"(2)) (rule "11.prems")
  show ?case
    using a b by (simp add: tokenize_punctuation tokenize_newline tokenize_indent put_tokens_algebra)
next
  case (12 k)
  then show ?case by (simp add: put_tokens_algebra)
next
  case (13 k p v)
  have "tokenize (serialize k v @ cs) = put_tokens (tokens v) (tokenize cs)"
    by (rule "13.IH") (rule "13.prems")
  then show ?case
    using tokenize_QuoteJSONString [of p "CHR '':'' # CHR '' '' # serialize k v @ cs"]
    by (simp add: tokenize_punctuation tokenize_skip_ws is_ws_def put_tokens_algebra)
next
  case (14 k p v m ms)
  have a: "tokenize (serialize k v @ CHR '','' # CHR 0x0A # indent k @ serialize_members k (m # ms) @ cs)
      = put_tokens (tokens v) (tokenize (CHR '','' # CHR 0x0A # indent k @ serialize_members k (m # ms) @ cs))"
    by (rule "14.IH"(1)) (simp add: number_end_simps)
  have b: "tokenize (serialize_members k (m # ms) @ cs) = put_tokens (tokens_members (m # ms)) (tokenize cs)"
    by (rule "14.IH"(2)) (rule "14.prems")
  show ?case
    using a b
      tokenize_QuoteJSONString [of p "CHR '':'' # CHR '' '' # serialize k v @ CHR '','' # CHR 0x0A
          # indent k @ serialize_members k (m # ms) @ cs"]
    by (simp add: tokenize_punctuation tokenize_skip_ws tokenize_newline tokenize_indent is_ws_def put_tokens_algebra)
qed

lemma tokenize_JSON_stringify: "tokenize (JSON_stringify v) = Some (tokens v)"
  using tokenize_serialize(1) [of "[]" 0 v]
  by (simp add: JSON_stringify_def number_end_simps put_tokens_def tokenize.simps [of "[]"])

subsection \<open>From tokens to the value\<close>

lemma tokens_start: "\<exists>t r. tokens v = t # r \<and> t \<noteq> TRBracket \<and> t \<noteq> TRBrace"
  by (cases v) simp_all

lemma tokens_elements_start:
  "vs \<noteq> [] \<Longrightarrow> \<exists>t r. tokens_elements vs = t # r \<and> t \<noteq> TRBracket"
proof (cases vs)
  case Nil
  assume "vs \<noteq> []"
  with Nil show ?thesis by simp
next
  case (Cons v ws)
  obtain t r where "tokens v = t # r" and "t \<noteq> TRBracket" using tokens_start [of v] by blast
  with Cons show ?thesis by (cases ws) simp_all
qed

lemma tokens_members_start:
  "ms \<noteq> [] \<Longrightarrow> \<exists>t r. tokens_members ms = t # r \<and> t \<noteq> TRBrace"
proof (cases ms)
  case Nil
  assume "ms \<noteq> []"
  with Nil show ?thesis by simp
next
  case (Cons m ws)
  then show ?thesis by (cases m; cases ws) simp_all
qed

lemma parse_tokens:
  "length (tokens v) \<le> n \<Longrightarrow> parse_value n (tokens v @ ts) = Some (v, ts)"
  "vs \<noteq> [] \<Longrightarrow> length (tokens_elements vs) < n \<Longrightarrow>
     parse_elements n (tokens_elements vs @ TRBracket # ts) = Some (vs, ts)"
  "ms \<noteq> [] \<Longrightarrow> length (tokens_members ms) < n \<Longrightarrow>
     parse_members n (tokens_members ms @ TRBrace # ts) = Some (ms, ts)"
proof (induction v and vs and ms arbitrary: n ts and n ts and n ts
    rule: tokens_tokens_elements_tokens_members.induct)
  case 1
  then show ?case by (cases n) simp_all
next
  case (2 b)
  then show ?case by (cases n) simp_all
next
  case (3 i)
  then show ?case by (cases n) simp_all
next
  case (4 s)
  then show ?case by (cases n) simp_all
next
  case (5 vs)
  from "5.prems" obtain m where n: "n = Suc m" and m: "length (tokens_elements vs) < m"
    by (cases n) auto
  show ?case
  proof (cases "vs = []")
    case True
    with n show ?thesis by simp
  next
    case False
    then obtain t r where s: "tokens_elements vs = t # r" and t: "t \<noteq> TRBracket"
      using tokens_elements_start by blast
    have "parse_elements m (tokens_elements vs @ TRBracket # ts) = Some (vs, ts)"
      using False m by (rule "5.IH")
    with n s t show ?thesis by simp
  qed
next
  case (6 ms)
  from "6.prems" obtain m where n: "n = Suc m" and m: "length (tokens_members ms) < m"
    by (cases n) auto
  show ?case
  proof (cases "ms = []")
    case True
    with n show ?thesis by simp
  next
    case False
    then obtain t r where s: "tokens_members ms = t # r" and t: "t \<noteq> TRBrace"
      using tokens_members_start by blast
    have "parse_members m (tokens_members ms @ TRBrace # ts) = Some (ms, ts)"
      using False m by (rule "6.IH")
    with n s t show ?thesis by simp
  qed
next
  case 7
  then show ?case by simp
next
  case (8 v)
  from "8.prems" obtain m where n: "n = Suc m" and m: "length (tokens v) \<le> m"
    by (cases n) auto
  have "parse_value m (tokens v @ TRBracket # ts) = Some (v, TRBracket # ts)"
    using m by (rule "8.IH")
  with n show ?case by simp
next
  case (9 v w vs)
  from "9.prems" obtain m where n: "n = Suc m" and m1: "length (tokens v) \<le> m"
    and m2: "length (tokens_elements (w # vs)) < m"
    by (cases n) auto
  have a: "parse_value m (tokens v @ TComma # tokens_elements (w # vs) @ TRBracket # ts)
      = Some (v, TComma # tokens_elements (w # vs) @ TRBracket # ts)"
    using m1 by (rule "9.IH"(1))
  have b: "parse_elements m (tokens_elements (w # vs) @ TRBracket # ts) = Some (w # vs, ts)"
    using _ m2 by (rule "9.IH"(2)) simp
  from n a b show ?case by simp
next
  case 10
  then show ?case by simp
next
  case (11 p v)
  from "11.prems" obtain m where n: "n = Suc m" and m: "length (tokens v) \<le> m"
    by (cases n) auto
  have "parse_value m (tokens v @ TRBrace # ts) = Some (v, TRBrace # ts)"
    using m by (rule "11.IH")
  with n show ?case by simp
next
  case (12 p v m' ms)
  from "12.prems" obtain m where n: "n = Suc m" and m1: "length (tokens v) \<le> m"
    and m2: "length (tokens_members (m' # ms)) < m"
    by (cases n) auto
  have a: "parse_value m (tokens v @ TComma # tokens_members (m' # ms) @ TRBrace # ts)
      = Some (v, TComma # tokens_members (m' # ms) @ TRBrace # ts)"
    using m1 by (rule "12.IH"(1))
  have b: "parse_members m (tokens_members (m' # ms) @ TRBrace # ts) = Some (m' # ms, ts)"
    using _ m2 by (rule "12.IH"(2)) simp
  from n a b show ?case by simp
qed

lemma JSON_parse_stringify: "JSON_parse (JSON_stringify v) = Some v"
  using parse_tokens(1) [of v "length (tokens v)" "[]"]
  by (simp add: JSON_parse_def tokenize_JSON_stringify)

text \<open>The parser on texts that the serializer did not write.\<close>

lemma JSON_parse_examples:
  \<open>JSON_parse ''{"a":[1,-20,true,null],"b":{}}''
     = Some (JObject [(''a'', JArray [JNumber 1, JNumber (- 20), JBool True, JNull]),
                      (''b'', JObject [])])\<close>
  \<open>JSON_parse ''[1,]'' = None\<close>
  \<open>JSON_parse ''[01]'' = None\<close>
  \<open>JSON_parse ''{"a":1} x'' = None\<close>
  \<open>JSON_parse ''[1, 2'' = None\<close>
  by code_simp+

subsection \<open>From the value to the AnalysisResult\<close>

lemma strings_of_strings: "strings_of (map JString ss) = Some ss"
  by (induction ss) simp_all

lemma map_of_optional_member:
  "map_of (optional_member p x @ ms) p = (case x of None \<Rightarrow> map_of ms p | Some s \<Rightarrow> Some (JString s))"
  by (simp add: optional_member_def split: option.splits)

lemma as_level_optional_last:
  "as_level (map_of (optional_member p x) p) = Some x"
  by (simp add: optional_member_def as_level_def split: option.splits)

lemma DiseaseDetection_round_trip:
  "DiseaseDetection_of_json
     (property (AnalysisResult_json r) ''diseaseDetection'') = Some (diseaseDetection r)"
  by (simp add: AnalysisResult_json_def property_def DiseaseDetection_of_json_def
      as_bool_def as_int_def as_strings_def strings_of_strings)

lemma MarketPrediction_round_trip:
  "MarketPrediction_of_json
     (property (AnalysisResult_json r) ''marketPrediction'') = Some (marketPrediction r)"
  by (cases "demandLevel (marketPrediction r)")
    (simp_all add: AnalysisResult_json_def property_def MarketPrediction_of_json_def
      as_int_def as_string_def as_level_def optional_member_def)

lemma EnvironmentalFactors_round_trip:
  "EnvironmentalFactors_of_json
     (property (AnalysisResult_json r) ''environmentalFactors'') = Some (environmentalFactors r)"
  by (cases "pestRisk (environmentalFactors r)")
    (simp_all add: AnalysisResult_json_def property_def EnvironmentalFactors_of_json_def
      as_int_def as_string_def as_level_def optional_member_def)

lemma AnalysisResult_round_trip: "AnalysisResult_of_json (AnalysisResult_json r) = Some r"
proof -
  have h: "as_int (property (AnalysisResult_json r) ''healthScore'') = Some (healthScore r)"
    by (simp add: AnalysisResult_json_def property_def as_int_def)
  have s: "as_strings (property (AnalysisResult_json r) ''recommendations'') = Some (recommendations r)"
    by (simp add: AnalysisResult_json_def property_def as_strings_def strings_of_strings)
  show ?thesis
    unfolding AnalysisResult_of_json_def
    by (simp add: h s DiseaseDetection_round_trip MarketPrediction_round_trip
        EnvironmentalFactors_round_trip)
qed

section \<open>Export\<close>

text \<open>
  C8. For a stored result \<open>r\<close>, Export Report downloads the document
  \<open>JSON.stringify(r, null, 2)\<close> and leaves every field of the controller as it was;
  parsing the document gives back the value that was serialized, and reading that value
  property by property gives back \<open>r\<close>, field for field. The results that the component
  stores are those of \<open>mockResult\<close>: their integers lie between 25 and 99, where
  \<open>Number_toString\<close> is the notation of JavaScript, and their strings are the constants of
  the source.
\<close>

theorem export_round_trip:
  assumes "analysisResult s = Some r"
  shows "dispatch crop today ExportClick s
      = Inr (s, [Download (export_filename crop today) (JSON_stringify (AnalysisResult_json r))])
    \<and> JSON_parse (JSON_stringify (AnalysisResult_json r)) = Some (AnalysisResult_json r)
    \<and> AnalysisResult_of_json (AnalysisResult_json r) = Some r"
  using assms by (simp add: JSON_parse_stringify AnalysisResult_round_trip)

lemma stored_example:
  "analysisResult (simulateAIAnalysis_resume half_draws initial) = Some (mockResult half_draws)"
  by (simp add: simulateAIAnalysis_resume_def)

theorem export_round_trip_witness:
  "analysisResult (simulateAIAnalysis_resume half_draws initial) = Some (mockResult half_draws)
    \<and> dispatch None may_day ExportClick (simulateAIAnalysis_resume half_draws initial)
        = Inr (simulateAIAnalysis_resume half_draws initial,
               [Download ''ai-analysis-crop-2024-05-01.json''
                  (JSON_stringify (AnalysisResult_json (mockResult half_draws)))])
    \<and> JSON_parse (JSON_stringify (AnalysisResult_json (mockResult half_draws)))
        = Some (AnalysisResult_json (mockResult half_draws))
    \<and> AnalysisResult_of_json (AnalysisResult_json (mockResult half_draws))
        = Some (mockResult half_draws)"
proof -
  have f: "export_filename None may_day = ''ai-analysis-crop-2024-05-01.json''"
    by (simp add: export_filename_def may_day_def)
  show ?thesis
    using f export_round_trip [OF stored_example, of None may_day] stored_example
    by simp
qed

text \<open>
  The document written for the draws that are all 0.5, as the browser writes it.
\<close>

lemma exported_document_example:
  \<open>JSON_stringify (AnalysisResult_json (mockResult half_draws)) =
    ''{\<newline>  "healthScore": 85,\<newline>  "diseaseDetection": {\<newline>    "detected": false,\<newline>    "diseases": [],\<newline>    "confidence": 90\<newline>  },\<newline>  "recommendations": [\<newline>    "Increase watering frequency by 20%",\<newline>    "Apply organic fertilizer rich in nitrogen",\<newline>    "Monitor for pest activity in the next 7 days",\<newline>    "Consider companion planting with marigolds",\<newline>    "Harvest within 2-3 weeks for optimal quality"\<newline>  ],\<newline>  "marketPrediction": {\<newline>    "expectedPrice": 50,\<newline>    "demandLevel": "Medium",\<newline>    "bestHarvestTime": "Next 2-3 weeks"\<newline>  },\<newline>  "environmentalFactors": {\<newline>    "soilHealth": 85,\<newline>    "weatherImpact": "Favorable conditions expected",\<newline>    "pestRisk": "Medium"\<newline>  }\<newline>}''\<close>
  unfolding mockResult_half_draws by code_simp

end
